theory Spec2Isabelle
  imports Complex_Main
begin

section \<open>Data frames\<close>

text \<open>
  A pandas DataFrame is kept column-major, as pandas keeps it: an ordered list of named
  columns. A cell is a number, a text (GAME_DATE, MATCHUP, ...) or the missing value
  (NaN/None), which \<open>dropna\<close> looks for. Numbers are exact rationals.
\<close>

datatype cell = Num rat | Txt string | NA

type_synonym series = "cell list"

type_synonym dataframe = "(string \<times> series) list"

definition nrows :: "dataframe \<Rightarrow> nat" where
  "nrows df = (case df of [] \<Rightarrow> 0 | c # _ \<Rightarrow> length (snd c))"

text \<open>\<open>DataFrame.empty\<close>: no columns or no rows.\<close>

definition df_empty :: "dataframe \<Rightarrow> bool" where
  "df_empty df \<longleftrightarrow> df = [] \<or> nrows df = 0"

text \<open>Column names in order of first appearance.\<close>

fun first_seen :: "string list \<Rightarrow> string list \<Rightarrow> string list" where
  "first_seen seen [] = []"
| "first_seen seen (n # ns) =
     (if n \<in> set seen then first_seen seen ns else n # first_seen (n # seen) ns)"

text \<open>
  \<open>pd.concat(frames, ignore_index=True)\<close>: the rows of the frames one after the other;
  a frame lacking a column of another contributes missing values there.
\<close>

definition pd_concat :: "dataframe list \<Rightarrow> dataframe" where
  "pd_concat frames =
     map (\<lambda>n. (n, concat (map (\<lambda>f. case map_of f n of
                                      Some c \<Rightarrow> c
                                    | None \<Rightarrow> replicate (nrows f) NA) frames)))
         (first_seen [] (concat (map (map fst) frames)))"

text \<open>
  The rows of a frame, each row as the list of its named cells, and what it is for a
  frame to be a table over given column names: those columns in that order, all of one
  length.
\<close>

definition rows :: "dataframe \<Rightarrow> (string \<times> cell) list list" where
  "rows df = map (\<lambda>i. map (\<lambda>(n, c). (n, c ! i)) df) [0 ..< nrows df]"

definition same_columns :: "string list \<Rightarrow> dataframe \<Rightarrow> bool" where
  "same_columns names df \<longleftrightarrow>
     map fst df = names \<and> list_all (\<lambda>(n, c). length c = nrows df) df"

text \<open>A frame's column of a name, missing values where it has none, and the frames of a
  list stacked column by column over given names.\<close>

definition col_or_na :: "dataframe \<Rightarrow> string \<Rightarrow> series" where
  "col_or_na f n = (case map_of f n of Some c \<Rightarrow> c | None \<Rightarrow> replicate (nrows f) NA)"

definition stacked :: "string list \<Rightarrow> dataframe list \<Rightarrow> dataframe" where
  "stacked names fs = map (\<lambda>n. (n, concat (map (\<lambda>f. col_or_na f n) fs))) names"

section \<open>Fetching game logs (streamlit\_app.py)\<close>

text \<open>
  The network is an oracle. \<open>catalog\<close> answers \<open>players.find_players_by_full_name\<close>
  with the ids of the matches; \<open>endpoint\<close> answers the k-th
  \<open>PlayerGameLog(player_id, season, timeout=60).get_data_frames()[0]\<close> for a player and
  a season, k counted from 0. Either returns or raises. What the program does to the
  outside (requests, sleeps, messages on the page) is an event log that every function
  takes and returns.
\<close>

datatype exn = ReadTimeout | ConnectionError | OtherException

datatype 'a outcome = Returns 'a | Raises exn

datatype event =
    Request int string
  | Sleep nat
  | StError string
  | StWarning string

type_synonym catalog = "string \<Rightarrow> int list outcome"

type_synonym endpoint = "int \<Rightarrow> string \<Rightarrow> nat \<Rightarrow> dataframe outcome"

definition SEASON_CURRENT :: string where
  "SEASON_CURRENT = ''2024-25''"

definition SEASON_PREVIOUS :: string where
  "SEASON_PREVIOUS = ''2023-24''"

definition MAX_RETRIES :: nat where
  "MAX_RETRIES = 3"

definition requests_so_far :: "event list \<Rightarrow> int \<Rightarrow> string \<Rightarrow> nat" where
  "requests_so_far evs player_id season = length (filter (\<lambda>e. e = Request player_id season) evs)"

text \<open>\<open>get_player_id\<close>: the first match's id; None on no match and on any exception.\<close>

definition get_player_id :: "catalog \<Rightarrow> string \<Rightarrow> event list \<Rightarrow> int option \<times> event list" where
  "get_player_id catalog player_name evs =
     (case catalog player_name of
        Raises e \<Rightarrow> (None, evs @ [StError player_name])
      | Returns [] \<Rightarrow> (None, evs @ [StWarning player_name])
      | Returns (i # _) \<Rightarrow> (Some i, evs))"

text \<open>
  \<open>fetch_player_gamelog\<close>: one request. Its \<open>except Exception\<close> catches whatever the
  request raises, ReadTimeout and ConnectionError included, reports it and returns None.
  The result type still has the raising side, since the caller wraps the call in a
  \<open>try\<close>. (The \<open>st.cache_data\<close> decorator only replays an earlier answer of the same
  function; a replayed answer is an answer of the oracle.)
\<close>

definition fetch_player_gamelog ::
  "endpoint \<Rightarrow> int \<Rightarrow> string \<Rightarrow> event list \<Rightarrow> (exn + dataframe option) \<times> event list" where
  "fetch_player_gamelog endpoint player_id season evs =
     (case endpoint player_id season (requests_so_far evs player_id season) of
        Returns gamelog \<Rightarrow> (Inr (Some gamelog), evs @ [Request player_id season])
      | Raises e \<Rightarrow> (Inr None, evs @ [Request player_id season, StError season]))"

text \<open>How a loop body leaves: on to the next iteration, \<open>return None\<close>, or an exception.\<close>

datatype control = Continue "dataframe list" | ReturnNone | Raise exn

text \<open>
  The inner loop \<open>for attempt in range(max_retries)\<close> of \<open>get_player_data\<close>, over the
  attempts still to run. A call that returns ends the loop (\<open>break\<close>), appending the
  game log unless it is None. ReadTimeout and ConnectionError are caught: sleep 2 and go
  on, or on the last attempt report and \<open>return None\<close>. Any other exception leaves the
  function.
\<close>

fun attempt_loop ::
  "(int \<Rightarrow> string \<Rightarrow> event list \<Rightarrow> (exn + dataframe option) \<times> event list) \<Rightarrow>
   int \<Rightarrow> string \<Rightarrow> nat \<Rightarrow> string \<Rightarrow> nat list \<Rightarrow> dataframe list \<Rightarrow> event list \<Rightarrow>
   control \<times> event list" where
  "attempt_loop fetch player_id player_name max_retries season [] gamelogs evs =
     (Continue gamelogs, evs)"
| "attempt_loop fetch player_id player_name max_retries season (attempt # rest) gamelogs evs =
     (case fetch player_id season evs of
        (Inr gamelog, evs') \<Rightarrow>
          (Continue (case gamelog of Some g \<Rightarrow> gamelogs @ [g] | None \<Rightarrow> gamelogs), evs')
      | (Inl e, evs') \<Rightarrow>
          if e = ReadTimeout \<or> e = ConnectionError then
            (if int attempt < int max_retries - 1
             then attempt_loop fetch player_id player_name max_retries season rest gamelogs
                    (evs' @ [Sleep 2])
             else (ReturnNone, evs' @ [StError player_name]))
          else (Raise e, evs'))"

text \<open>The outer loop \<open>for season in seasons\<close>.\<close>

fun season_loop ::
  "(int \<Rightarrow> string \<Rightarrow> event list \<Rightarrow> (exn + dataframe option) \<times> event list) \<Rightarrow>
   int \<Rightarrow> string \<Rightarrow> nat \<Rightarrow> string list \<Rightarrow> dataframe list \<Rightarrow> event list \<Rightarrow>
   control \<times> event list" where
  "season_loop fetch player_id player_name max_retries [] gamelogs evs = (Continue gamelogs, evs)"
| "season_loop fetch player_id player_name max_retries (season # rest) gamelogs evs =
     (case attempt_loop fetch player_id player_name max_retries season [0 ..< max_retries]
             gamelogs evs of
        (Continue gamelogs', evs') \<Rightarrow>
          season_loop fetch player_id player_name max_retries rest gamelogs' evs'
      | (ReturnNone, evs') \<Rightarrow> (ReturnNone, evs')
      | (Raise e, evs') \<Rightarrow> (Raise e, evs'))"

text \<open>
  The body of \<open>get_player_data\<close> after the id is known, for any fetch function, and
  \<open>get_player_data\<close> itself, which fetches with \<open>fetch_player_gamelog\<close>.
  \<open>not player_id\<close> holds for None and for the id 0.
\<close>

definition combine_seasons ::
  "(int \<Rightarrow> string \<Rightarrow> event list \<Rightarrow> (exn + dataframe option) \<times> event list) \<Rightarrow>
   int \<Rightarrow> string \<Rightarrow> nat \<Rightarrow> event list \<Rightarrow> (exn + dataframe option) \<times> event list" where
  "combine_seasons fetch player_id player_name max_retries evs =
     (case season_loop fetch player_id player_name max_retries
             [SEASON_CURRENT, SEASON_PREVIOUS] [] evs of
        (Continue gamelogs, evs') \<Rightarrow>
          (if gamelogs \<noteq> [] then Inr (Some (pd_concat gamelogs)) else Inr None, evs')
      | (ReturnNone, evs') \<Rightarrow> (Inr None, evs')
      | (Raise e, evs') \<Rightarrow> (Inl e, evs'))"

definition get_player_data ::
  "catalog \<Rightarrow> endpoint \<Rightarrow> string \<Rightarrow> nat \<Rightarrow> event list \<Rightarrow>
   (exn + dataframe option) \<times> event list" where
  "get_player_data catalog endpoint player_name max_retries evs =
     (case get_player_id catalog player_name evs of
        (None, evs') \<Rightarrow> (Inr None, evs')
      | (Some player_id, evs') \<Rightarrow>
          if player_id = 0 then (Inr None, evs')
          else combine_seasons (fetch_player_gamelog endpoint) player_id player_name
                 max_retries evs')"

text \<open>
  What one season's fetch gives when it is asked once: the game log, or nothing when the
  request raises.
\<close>

definition season_fetch :: "endpoint \<Rightarrow> int \<Rightarrow> event list \<Rightarrow> string \<Rightarrow> dataframe option" where
  "season_fetch endpoint player_id evs season =
     (case endpoint player_id season (requests_so_far evs player_id season) of
        Returns gamelog \<Rightarrow> Some gamelog
      | Raises e \<Rightarrow> None)"

definition is_attempt :: "event \<Rightarrow> bool" where
  "is_attempt e = (case e of Request p s \<Rightarrow> True | Sleep n \<Rightarrow> True | _ \<Rightarrow> False)"

text \<open>
  The game logs of the seasons whose fetch succeeds, in the order requested, for a player
  whose id is resolved (none otherwise).
\<close>

definition successful_seasons :: "catalog \<Rightarrow> endpoint \<Rightarrow> string \<Rightarrow> event list \<Rightarrow> dataframe list" where
  "successful_seasons catalog endpoint player_name evs =
     (case get_player_id catalog player_name evs of
        (None, evs') \<Rightarrow> []
      | (Some player_id, evs') \<Rightarrow>
          if player_id = 0 then []
          else List.map_filter (season_fetch endpoint player_id evs')
                 [SEASON_CURRENT, SEASON_PREVIOUS])"

text \<open>Oracles for the worked examples: one player in the catalog; a current season that
  times out at every request, with a previous season that answers one game.\<close>

definition one_player_catalog :: catalog where
  "one_player_catalog player_name = Returns [2544]"

definition one_game :: dataframe where
  "one_game = [(''PTS'', [Num 30]), (''MIN'', [Num 35])]"

definition timeout_then_ok :: endpoint where
  "timeout_then_ok player_id season k =
     (if season = SEASON_CURRENT then Raises ReadTimeout else Returns one_game)"

definition always_timeout :: "int \<Rightarrow> string \<Rightarrow> event list \<Rightarrow> (exn + dataframe option) \<times> event list" where
  "always_timeout player_id season evs = (Inl ReadTimeout, evs @ [Request player_id season])"

text \<open>An endpoint that answers both seasons: two games this season, one the season before.\<close>

definition current_games :: dataframe where
  "current_games = [(''PTS'', [Num 30, Num 25]), (''MIN'', [Num 35, Num 33])]"

definition previous_games :: dataframe where
  "previous_games = [(''PTS'', [Num 12]), (''MIN'', [Num 20])]"

definition both_seasons :: endpoint where
  "both_seasons player_id season k =
     (if season = SEASON_CURRENT then Returns current_games else Returns previous_games)"

section \<open>Fetching a roster (fetch\_all\_player\_data)\<close>

text \<open>
  One task \<open>get_player_data(player)\<close> is submitted per roster entry; the futures are the
  positions in the roster, \<open>future_to_player\<close> maps each to its player. A job says what
  \<open>future.result()\<close> gives for a future and its player: a returned table, a returned
  None, or an exception. \<open>as_completed\<close> yields the futures in the order in which they
  finish, which the program does not control: the order is a parameter. The loop body
  runs in the main thread, one future after the other.
\<close>

type_synonym job = "nat \<Rightarrow> string \<Rightarrow> dataframe option outcome"

fun completed_loop ::
  "job \<Rightarrow> (nat \<times> string) list \<Rightarrow> nat list \<Rightarrow> (string \<rightharpoonup> dataframe) \<Rightarrow> event list \<Rightarrow>
   (string \<rightharpoonup> dataframe) \<times> event list" where
  "completed_loop job future_to_player [] player_data evs = (player_data, evs)"
| "completed_loop job future_to_player (future # rest) player_data evs =
     (case map_of future_to_player future of
        None \<Rightarrow> completed_loop job future_to_player rest player_data evs
      | Some player \<Rightarrow>
          (case job future player of
             Raises e \<Rightarrow>
               completed_loop job future_to_player rest player_data (evs @ [StError player])
           | Returns None \<Rightarrow>
               completed_loop job future_to_player rest player_data (evs @ [StWarning player])
           | Returns (Some data) \<Rightarrow>
               if \<not> df_empty data
               then completed_loop job future_to_player rest (player_data(player \<mapsto> data)) evs
               else completed_loop job future_to_player rest player_data
                      (evs @ [StWarning player])))"

definition fetch_all_player_data ::
  "job \<Rightarrow> nat list \<Rightarrow> string list \<Rightarrow> event list \<Rightarrow> (string \<rightharpoonup> dataframe) \<times> event list" where
  "fetch_all_player_data job completion_order roster evs =
     completed_loop job (zip [0 ..< length roster] roster) completion_order Map.empty evs"

text \<open>
  The job that the program submits: \<open>get_player_data\<close> with the default retry bound, run
  by the worker of that future against the endpoint as that worker sees it.
\<close>

definition get_player_data_job :: "catalog \<Rightarrow> (nat \<Rightarrow> endpoint) \<Rightarrow> job" where
  "get_player_data_job catalog endpoints future player =
     (case fst (get_player_data catalog (endpoints future) player MAX_RETRIES []) of
        Inl e \<Rightarrow> Raises e
      | Inr r \<Rightarrow> Returns r)"

text \<open>The data a finished future contributes to the mapping, if any.\<close>

definition usable :: "dataframe option outcome \<Rightarrow> dataframe option" where
  "usable r =
     (case r of
        Returns (Some data) \<Rightarrow> if df_empty data then None else Some data
      | _ \<Rightarrow> None)"

text \<open>A roster of three, the second of whom the catalog does not know.\<close>

definition three_players :: "string list" where
  "three_players = [''LeBron James'', ''No Such Player'', ''Austin Reaves'']"

definition two_known :: catalog where
  "two_known player_name =
     (if player_name = ''No Such Player'' then Returns [] else Returns [2544])"

section \<open>Feature engineering (preprocess\_game\_log)\<close>

datatype pd_error = KeyError string | DataError | TypeError | ValueError

definition features :: "string list" where
  "features = [''MIN'', ''FGM'', ''FGA'', ''FG_PCT'', ''FG3M'', ''FG3A'', ''FG3_PCT'',
               ''FTM'', ''FTA'', ''FT_PCT'', ''OREB'', ''DREB'', ''REB'', ''AST'', ''STL'', ''BLK'']"

definition target :: string where
  "target = ''PTS''"

definition rolling_windows :: "nat list" where
  "rolling_windows = [3, 5, 10]"

text \<open>The decimal digits of a window size, as the f-string prints it.\<close>

definition digit_char :: "nat \<Rightarrow> char" where
  "digit_char d = ''0123456789'' ! d"

function str_nat :: "nat \<Rightarrow> string" where
  "str_nat n = (if n < 10 then [digit_char n] else str_nat (n div 10) @ [digit_char (n mod 10)])"
  by pat_completeness auto
termination
  by (relation "measure id") auto

declare str_nat.simps [simp del]

text \<open>\<open>df[name]\<close>: the column, or KeyError.\<close>

definition get_column :: "dataframe \<Rightarrow> string \<Rightarrow> pd_error + series" where
  "get_column df name = (case map_of df name of None \<Rightarrow> Inl (KeyError name) | Some c \<Rightarrow> Inr c)"

text \<open>\<open>df[name] = col\<close>: replaces the column of that name in place, or appends a new one.\<close>

definition set_column :: "dataframe \<Rightarrow> string \<Rightarrow> series \<Rightarrow> dataframe" where
  "set_column df name col =
     (if name \<in> set (map fst df)
      then map (\<lambda>(n, c). if n = name then (n, col) else (n, c)) df
      else df @ [(name, col)])"

text \<open>
  \<open>Series.rolling(window=w, min_periods=m).mean()\<close>, by its documented meaning: the
  window of row i is the rows i-w+1 .. i that exist; its observations are the cells that
  are not missing; the value is their mean when there are at least m (and at least one)
  of them, else missing. A text column cannot be aggregated (DataError).
\<close>

definition is_text :: "cell \<Rightarrow> bool" where
  "is_text c = (case c of Txt s \<Rightarrow> True | _ \<Rightarrow> False)"

definition is_num :: "cell \<Rightarrow> bool" where
  "is_num c = (case c of Num v \<Rightarrow> True | _ \<Rightarrow> False)"

definition observations :: "series \<Rightarrow> rat list" where
  "observations win = concat (map (\<lambda>c. case c of Num v \<Rightarrow> [v] | _ \<Rightarrow> []) win)"

definition window_at :: "nat \<Rightarrow> series \<Rightarrow> nat \<Rightarrow> series" where
  "window_at window xs i = drop (Suc i - window) (take (Suc i) xs)"

definition window_mean :: "nat \<Rightarrow> series \<Rightarrow> cell" where
  "window_mean min_periods win =
     (let obs = observations win
      in if min_periods \<le> length obs \<and> obs \<noteq> []
         then Num (sum_list obs / of_nat (length obs)) else NA)"

definition rolling_mean :: "nat \<Rightarrow> nat \<Rightarrow> series \<Rightarrow> pd_error + series" where
  "rolling_mean window min_periods xs =
     (if list_ex is_text xs then Inl DataError
      else Inr (map (\<lambda>i. window_mean min_periods (window_at window xs i)) [0 ..< length xs]))"

text \<open>\<open>df.dropna()\<close>: a new frame with the rows that have no missing cell.\<close>

definition complete_row :: "dataframe \<Rightarrow> nat \<Rightarrow> bool" where
  "complete_row df i = list_all (\<lambda>(n, c). c ! i \<noteq> NA) df"

definition dropna :: "dataframe \<Rightarrow> dataframe" where
  "dropna df =
     (let keep = filter (complete_row df) [0 ..< nrows df]
      in map (\<lambda>(n, c). (n, map (\<lambda>i. c ! i) keep)) df)"

text \<open>
  The two loops of \<open>preprocess_game_log\<close>. They assign columns on the frame they are
  given, so they return that frame as it is afterwards, with the exception if one was
  raised. \<open>mid\<close> is the middle of the column name: \<open>_rolling_\<close> in streamlit\_app.py,
  \<open>_roll_\<close> in 1streamlit\_app.py, the only difference between the two versions.
\<close>

fun window_loop :: "string \<Rightarrow> string \<Rightarrow> nat list \<Rightarrow> dataframe \<Rightarrow> dataframe \<times> pd_error option" where
  "window_loop mid feature [] game_log = (game_log, None)"
| "window_loop mid feature (window # rest) game_log =
     (case get_column game_log feature of
        Inl e \<Rightarrow> (game_log, Some e)
      | Inr col \<Rightarrow>
          (case rolling_mean window 1 col of
             Inl e \<Rightarrow> (game_log, Some e)
           | Inr r \<Rightarrow>
               window_loop mid feature rest
                 (set_column game_log (feature @ mid @ str_nat window) r)))"

fun feature_loop :: "string \<Rightarrow> nat list \<Rightarrow> string list \<Rightarrow> dataframe \<Rightarrow> dataframe \<times> pd_error option" where
  "feature_loop mid windows [] game_log = (game_log, None)"
| "feature_loop mid windows (feature # rest) game_log =
     (case window_loop mid feature windows game_log of
        (game_log', Some e) \<Rightarrow> (game_log', Some e)
      | (game_log', None) \<Rightarrow> feature_loop mid windows rest game_log')"

text \<open>
  \<open>preprocess_game_log\<close>. The first component is the caller's table after the call
  (the argument object, which the column assignments change), the second what the call
  returns or raises.
\<close>

definition preprocess_with ::
  "string \<Rightarrow> dataframe option \<Rightarrow> dataframe option \<times> (pd_error + dataframe option)" where
  "preprocess_with mid game_log =
     (case game_log of
        None \<Rightarrow> (None, Inr None)
      | Some df \<Rightarrow>
          if df_empty df then (Some df, Inr None)
          else (case feature_loop mid rolling_windows (features @ [target]) df of
                  (df', Some e) \<Rightarrow> (Some df', Inl e)
                | (df', None) \<Rightarrow> (Some df', Inr (Some (dropna df')))))"

definition preprocess_game_log ::
  "dataframe option \<Rightarrow> dataframe option \<times> (pd_error + dataframe option)" where
  "preprocess_game_log = preprocess_with ''_rolling_''"

text \<open>The same function of 1streamlit\_app.py.\<close>

definition preprocess_game_log1 ::
  "dataframe option \<Rightarrow> dataframe option \<times> (pd_error + dataframe option)" where
  "preprocess_game_log1 = preprocess_with ''_roll_''"

text \<open>\<open>needle in haystack\<close> on strings.\<close>

fun starts_with :: "string \<Rightarrow> string \<Rightarrow> bool" where
  "starts_with [] s = True"
| "starts_with (c # cs) [] = False"
| "starts_with (c # cs) (d # ds) = (c = d \<and> starts_with cs ds)"

fun str_in :: "string \<Rightarrow> string \<Rightarrow> bool" where
  "str_in needle [] = (needle = [])"
| "str_in needle (c # cs) = (starts_with needle (c # cs) \<or> str_in needle cs)"

text \<open>
  The modelling inputs that \<open>main\<close> takes from the processed table: X is the columns
  whose name contains \<open>_rolling_\<close>, y is the PTS column.
\<close>

definition model_inputs :: "dataframe \<Rightarrow> pd_error + (dataframe \<times> series)" where
  "model_inputs processed_data =
     (let features = filter (str_in ''_rolling_'') (map fst processed_data);
          X = filter (\<lambda>(n, c). n \<in> set features) processed_data
      in case get_column processed_data ''PTS'' of
           Inl e \<Rightarrow> Inl e
         | Inr y \<Rightarrow> Inr (X, y))"

text \<open>The column of that name in the table a call returned, if it returned one.\<close>

definition returned_column ::
  "dataframe option \<times> (pd_error + dataframe option) \<Rightarrow> string \<Rightarrow> series option" where
  "returned_column r name =
     (case snd r of Inr (Some out) \<Rightarrow> map_of out name | _ \<Rightarrow> None)"

text \<open>
  A game log as the endpoint delivers one (the GameLogRow of the data model): at least one
  row, columns of one length, no missing cell, every one of the 17 fields present and
  numeric, and no column already named like a rolling column.
\<close>

definition game_log_ok :: "dataframe \<Rightarrow> bool" where
  "game_log_ok df \<longleftrightarrow>
     0 < nrows df \<and>
     list_all (\<lambda>(n, c). length c = nrows df \<and> list_all (\<lambda>x. x \<noteq> NA) c \<and> \<not> str_in ''_roll'' n) df \<and>
     list_all (\<lambda>f. case map_of df f of None \<Rightarrow> False | Some c \<Rightarrow> list_all is_num c)
       (features @ [target])"

text \<open>The rolling columns of a table, field by field and window by window.\<close>

definition rolling_of :: "dataframe \<Rightarrow> string \<Rightarrow> nat \<Rightarrow> series" where
  "rolling_of df feature window =
     (case map_of df feature of
        None \<Rightarrow> []
      | Some col \<Rightarrow> map (\<lambda>i. window_mean 1 (window_at window col i)) [0 ..< length col])"

definition rolling_columns :: "string \<Rightarrow> dataframe \<Rightarrow> dataframe" where
  "rolling_columns mid df =
     concat (map (\<lambda>f. map (\<lambda>w. (f @ mid @ str_nat w, rolling_of df f w)) rolling_windows)
               (features @ [target]))"

text \<open>The rolling means of a column with window w and at least one observation, and the
  names of the columns that the two loops assign.\<close>

definition roll :: "nat \<Rightarrow> series \<Rightarrow> series" where
  "roll w col = map (\<lambda>i. window_mean 1 (window_at w col i)) [0 ..< length col]"

definition col_names :: "string \<Rightarrow> nat list \<Rightarrow> string list \<Rightarrow> string list" where
  "col_names mid ws fs = concat (map (\<lambda>f. map (\<lambda>w. f @ mid @ str_nat w) ws) fs)"

text \<open>Worked examples: a two-game log with PTS 10 and 20, and every other field 1.\<close>

definition two_games :: dataframe where
  "two_games =
     (''GAME_DATE'', [Txt ''APR 02, 2025'', Txt ''MAR 30, 2025'']) #
     (''PTS'', [Num 10, Num 20]) #
     map (\<lambda>f. (f, [Num 1, Num 1])) features"

section \<open>Reported ratios (main)\<close>

text \<open>
  A Python or numpy float: a number, NaN, or an infinity. Comparison with NaN is false;
  numpy's division of a sum by a zero sum gives NaN or an infinity (with a warning), it
  does not raise.
\<close>

datatype pyfloat = Fin rat | NaN | PInf | NInf

definition np_div :: "rat \<Rightarrow> rat \<Rightarrow> pyfloat" where
  "np_div a b =
     (if b = 0 then (if a = 0 then NaN else if 0 < a then PInf else NInf)
      else Fin (a / b))"

text \<open>Multiplication by the positive constants 100 and 48, and addition.\<close>

definition np_scale :: "pyfloat \<Rightarrow> rat \<Rightarrow> pyfloat" where
  "np_scale x k = (case x of Fin a \<Rightarrow> Fin (a * k) | other \<Rightarrow> other)"

fun np_add :: "pyfloat \<Rightarrow> pyfloat \<Rightarrow> pyfloat" where
  "np_add NaN y = NaN"
| "np_add x NaN = NaN"
| "np_add PInf NInf = NaN"
| "np_add NInf PInf = NaN"
| "np_add PInf y = PInf"
| "np_add x PInf = PInf"
| "np_add NInf y = NInf"
| "np_add x NInf = NInf"
| "np_add (Fin a) (Fin b) = Fin (a + b)"

text \<open>\<open>df[name].sum()\<close> and \<open>df[name].mean()\<close>, which skip missing cells.\<close>

definition col_sum :: "dataframe \<Rightarrow> string \<Rightarrow> pd_error + rat" where
  "col_sum df name =
     (case get_column df name of
        Inl e \<Rightarrow> Inl e
      | Inr c \<Rightarrow> if list_ex is_text c then Inl TypeError else Inr (sum_list (observations c)))"

definition col_mean :: "dataframe \<Rightarrow> string \<Rightarrow> pd_error + pyfloat" where
  "col_mean df name =
     (case get_column df name of
        Inl e \<Rightarrow> Inl e
      | Inr c \<Rightarrow> if list_ex is_text c then Inl TypeError
                 else Inr (np_div (sum_list (observations c)) (of_nat (length (observations c)))))"

definition bind_err :: "'e + 'a \<Rightarrow> ('a \<Rightarrow> 'e + 'b) \<Rightarrow> 'e + 'b" where
  "bind_err m f = (case m of Inl e \<Rightarrow> Inl e | Inr a \<Rightarrow> f a)"

text \<open>
  The dictionary \<open>impact_metrics\<close> of streamlit\_app.py, its entries evaluated in order:
  the two ratios are divided as they are.
\<close>

definition impact_metrics :: "dataframe \<Rightarrow> pd_error + (string \<times> pyfloat) list" where
  "impact_metrics processed_data =
     bind_err (col_mean processed_data ''MIN'') (\<lambda>usage.
     bind_err (col_sum processed_data ''FGM'') (\<lambda>fgm.
     bind_err (col_sum processed_data ''FGA'') (\<lambda>fga.
     bind_err (col_mean processed_data ''STL'') (\<lambda>stl.
     bind_err (col_mean processed_data ''BLK'') (\<lambda>blk.
     bind_err (col_sum processed_data ''PTS'') (\<lambda>pts.
     bind_err (col_sum processed_data ''MIN'') (\<lambda>minutes.
       Inr [(''Usage Rate'', usage),
            (''Offensive Rating'', np_scale (np_div fgm fga) 100),
            (''Defensive Impact'', np_add stl blk),
            (''Efficiency'', np_scale (np_div pts minutes) 48)])))))))"

text \<open>
  The same dictionary in 1streamlit\_app.py, where each ratio is guarded:
  \<open>... if processed_df['FGA'].sum() != 0 else 0\<close>.
\<close>

definition impact_metrics1 :: "dataframe \<Rightarrow> pd_error + (string \<times> pyfloat) list" where
  "impact_metrics1 processed_df =
     bind_err (col_mean processed_df ''MIN'') (\<lambda>usage.
     bind_err (col_sum processed_df ''FGA'') (\<lambda>fga.
     bind_err (if fga \<noteq> 0
               then bind_err (col_sum processed_df ''FGM'') (\<lambda>fgm.
                      Inr (np_scale (np_div fgm fga) 100))
               else Inr (Fin 0)) (\<lambda>rating.
     bind_err (col_mean processed_df ''STL'') (\<lambda>stl.
     bind_err (col_mean processed_df ''BLK'') (\<lambda>blk.
     bind_err (col_sum processed_df ''MIN'') (\<lambda>minutes.
     bind_err (if minutes \<noteq> 0
               then bind_err (col_sum processed_df ''PTS'') (\<lambda>pts.
                      Inr (np_scale (np_div pts minutes) 48))
               else Inr (Fin 0)) (\<lambda>efficiency.
       Inr [(''Usage Rate'', usage),
            (''Offensive Rating'', rating),
            (''Defensive Impact'', np_add stl blk),
            (''Efficiency'', efficiency)])))))))"

section \<open>Training and selection (train\_models)\<close>

text \<open>Python's \<open>a > b\<close> on floats.\<close>

fun py_gt :: "pyfloat \<Rightarrow> pyfloat \<Rightarrow> bool" where
  "py_gt NaN y = False"
| "py_gt x NaN = False"
| "py_gt PInf PInf = False"
| "py_gt PInf y = True"
| "py_gt x PInf = False"
| "py_gt NInf y = False"
| "py_gt x NInf = True"
| "py_gt (Fin a) (Fin b) = (b < a)"

text \<open>
  The four candidates with their hyperparameters, in the order of the dictionary
  \<open>models\<close>. What scikit-learn and XGBoost compute is not part of the program: the
  library is a parameter, with the split (a function of the data, the test size and the
  seed), \<open>fit\<close>, \<open>score\<close> and \<open>predict\<close>. Every call of the library is logged with
  the data it is given.
\<close>

datatype estimator =
    RandomForestRegressor nat nat
  | GradientBoostingRegressor nat nat
  | XGBRegressor nat nat
  | MLPRegressor "nat list" nat nat

definition models :: "(string \<times> estimator) list" where
  "models =
     [(''Random Forest'', RandomForestRegressor 100 42),
      (''Gradient Boosting'', GradientBoostingRegressor 100 42),
      (''XGBoost'', XGBRegressor 100 42),
      (''Neural Network'', MLPRegressor [100, 50] 1000 42)]"

record 'm sklearn =
  lib_split :: "dataframe \<Rightarrow> series \<Rightarrow> rat \<Rightarrow> nat \<Rightarrow> dataframe \<times> dataframe \<times> series \<times> series"
  lib_fit :: "estimator \<Rightarrow> dataframe \<Rightarrow> series \<Rightarrow> 'm"
  lib_score :: "'m \<Rightarrow> dataframe \<Rightarrow> series \<Rightarrow> pyfloat"
  lib_predict :: "'m \<Rightarrow> dataframe \<Rightarrow> series"

datatype lib_call =
    Split dataframe series rat nat
  | Fit string dataframe series
  | Score string dataframe series
  | Predict string dataframe

record 'm model_result =
  model :: 'm
  score :: pyfloat
  predictions :: series
  y_test :: series

text \<open>\<open>d[key] = value\<close> on a dictionary kept in insertion order.\<close>

definition dict_set :: "(string \<times> 'v) list \<Rightarrow> string \<Rightarrow> 'v \<Rightarrow> (string \<times> 'v) list" where
  "dict_set d key v =
     (if key \<in> set (map fst d)
      then map (\<lambda>(k, old). if k = key then (k, v) else (k, old)) d
      else d @ [(key, v)])"

record 'm training_state =
  best_model :: "'m option"
  best_score :: pyfloat
  results :: "(string \<times> 'm model_result) list"
  calls :: "lib_call list"

text \<open>The loop \<open>for name, model in models.items()\<close>.\<close>

fun candidate_loop ::
  "'m sklearn \<Rightarrow> dataframe \<Rightarrow> dataframe \<Rightarrow> series \<Rightarrow> series \<Rightarrow>
   (string \<times> estimator) list \<Rightarrow> 'm training_state \<Rightarrow> 'm training_state" where
  "candidate_loop lib X_train X_test y_train y_test' [] st = st"
| "candidate_loop lib X_train X_test y_train y_test' ((name, candidate) # rest) st =
     (let fitted = lib_fit lib candidate X_train y_train;
          sc = lib_score lib fitted X_test y_test';
          st1 = st\<lparr>results := dict_set (results st) name
                                \<lparr>model = fitted, score = sc,
                                 predictions = lib_predict lib fitted X_test,
                                 y_test = y_test'\<rparr>,
                    calls := calls st @ [Fit name X_train y_train, Score name X_test y_test',
                                         Predict name X_test]\<rparr>
      in candidate_loop lib X_train X_test y_train y_test' rest
           (if py_gt sc (best_score st1)
            then st1\<lparr>best_score := sc, best_model := Some fitted\<rparr>
            else st1))"

text \<open>
  \<open>train_models\<close>: the split is made once, with test size 0.2 and seed 42, then the
  loop runs. It returns \<open>(best_model, results)\<close>; the third component is the log of the
  library calls.
\<close>

definition train_models ::
  "'m sklearn \<Rightarrow> dataframe \<Rightarrow> series \<Rightarrow>
   'm option \<times> (string \<times> 'm model_result) list \<times> lib_call list" where
  "train_models lib X y =
     (case lib_split lib X y (1 / 5) 42 of
        (X_train, X_test, y_train, y_test') \<Rightarrow>
          (let st = candidate_loop lib X_train X_test y_train y_test' models
                      \<lparr>best_model = None, best_score = NInf, results = [],
                       calls = [Split X y (1 / 5) 42]\<rparr>
           in (best_model st, results st, calls st)))"

text \<open>
  Python's \<open>max(items, key=...)\<close>: the first item is the maximum so far, a later item
  replaces it when its key is greater; ValueError on no items.
\<close>

fun max_from :: "('a \<Rightarrow> pyfloat) \<Rightarrow> 'a \<Rightarrow> 'a list \<Rightarrow> 'a" where
  "max_from key cur [] = cur"
| "max_from key cur (x # xs) =
     (if py_gt (key x) (key cur) then max_from key x xs else max_from key cur xs)"

definition py_max :: "('a \<Rightarrow> pyfloat) \<Rightarrow> 'a list \<Rightarrow> pd_error + 'a" where
  "py_max key items = (case items of [] \<Rightarrow> Inl ValueError | x # xs \<Rightarrow> Inr (max_from key x xs))"

text \<open>
  The result that \<open>main\<close> charts:
  \<open>model_results[max(model_results.items(), key=lambda x: x[1]['score'])[0]]\<close>.
\<close>

definition best_result :: "(string \<times> 'm model_result) list \<Rightarrow> pd_error + 'm model_result" where
  "best_result model_results =
     (case py_max (\<lambda>x. score (snd x)) model_results of
        Inl e \<Rightarrow> Inl e
      | Inr (name, r) \<Rightarrow>
          (case map_of model_results name of
             None \<Rightarrow> Inl (KeyError name)
           | Some r' \<Rightarrow> Inr r'))"

text \<open>
  The selection of the loop read off the results: the walk that keeps the first strictly
  greater score.
\<close>

fun select_best ::
  "(string \<times> 'm model_result) list \<Rightarrow> 'm option \<times> pyfloat \<Rightarrow> 'm option \<times> pyfloat" where
  "select_best [] b = b"
| "select_best ((name, r) # rs) (bm, bs) =
     select_best rs (if py_gt (score r) bs then (Some (model r), score r) else (bm, bs))"

text \<open>What the loop stores for a candidate, given the partitions.\<close>

definition candidate_result ::
  "'m sklearn \<Rightarrow> dataframe \<Rightarrow> dataframe \<Rightarrow> series \<Rightarrow> series \<Rightarrow> estimator \<Rightarrow> 'm model_result" where
  "candidate_result lib X_train X_test y_train y_test' candidate =
     \<lparr>model = lib_fit lib candidate X_train y_train,
      score = lib_score lib (lib_fit lib candidate X_train y_train) X_test y_test',
      predictions = lib_predict lib (lib_fit lib candidate X_train y_train) X_test,
      y_test = y_test'\<rparr>"

text \<open>The results as \<open>train_models\<close> stores them, candidate by candidate.\<close>

definition stored ::
  "'m sklearn \<Rightarrow> dataframe \<Rightarrow> series \<Rightarrow> (string \<times> 'm model_result) list" where
  "stored lib X y =
     (case lib_split lib X y (1 / 5) 42 of
        (X_train, X_test, y_train, y_test') \<Rightarrow>
          map (\<lambda>(name, m). (name, candidate_result lib X_train X_test y_train y_test' m)) models)"

text \<open>
  Index i is the first best of a list of scores: its score is a number above minus
  infinity, no score is greater, and every earlier score is smaller or is NaN.
\<close>

definition first_best :: "pyfloat list \<Rightarrow> nat \<Rightarrow> bool" where
  "first_best ss i \<longleftrightarrow>
     i < length ss \<and> py_gt (ss ! i) NInf \<and>
     list_all (\<lambda>j. \<not> py_gt (ss ! j) (ss ! i)) [0 ..< length ss] \<and>
     list_all (\<lambda>j. py_gt (ss ! i) (ss ! j) \<or> ss ! j = NaN) [0 ..< i]"

text \<open>A feature matrix and a target of two rows.\<close>

definition two_row_X :: dataframe where
  "two_row_X = [(''PTS_rolling_3'', [Num 10, Num 15]), (''MIN_rolling_3'', [Num 30, Num 32])]"

definition two_row_y :: series where
  "two_row_y = [Num 10, Num 20]"

text \<open>
  Libraries for the worked examples. The fitted model is the estimator itself. One
  library scores the candidates 0.5, 0.7, 0.7 and 0.3 in the declared order; the other
  scores every candidate NaN, as \<open>r2_score\<close> does on a held-out partition of one row
  (a table of two to five rows).
\<close>

definition halves :: "dataframe \<Rightarrow> series \<Rightarrow> rat \<Rightarrow> nat \<Rightarrow> dataframe \<times> dataframe \<times> series \<times> series" where
  "halves X y test_size seed =
     (map (\<lambda>(n, c). (n, butlast c)) X, map (\<lambda>(n, c). (n, [last c])) X, butlast y, [last y])"

definition example_scores :: "estimator \<Rightarrow> pyfloat" where
  "example_scores m =
     (case m of
        RandomForestRegressor n s \<Rightarrow> Fin (1 / 2)
      | GradientBoostingRegressor n s \<Rightarrow> Fin (7 / 10)
      | XGBRegressor n s \<Rightarrow> Fin (7 / 10)
      | MLPRegressor h n s \<Rightarrow> Fin (3 / 10))"

definition example_lib :: "estimator sklearn" where
  "example_lib =
     \<lparr>lib_split = halves,
      lib_fit = (\<lambda>m X y. m),
      lib_score = (\<lambda>m X y. example_scores m),
      lib_predict = (\<lambda>m X. replicate (nrows X) (Num 0))\<rparr>"

definition nan_lib :: "estimator sklearn" where
  "nan_lib =
     \<lparr>lib_split = halves,
      lib_fit = (\<lambda>m X y. m),
      lib_score = (\<lambda>m X y. NaN),
      lib_predict = (\<lambda>m X. replicate (nrows X) (Num 0))\<rparr>"

section \<open>The analysis in main\<close>

text \<open>\<open>df.head(k)\<close> and \<open>df[[names]]\<close>, which raises KeyError on a name the frame lacks.\<close>

definition head :: "nat \<Rightarrow> dataframe \<Rightarrow> dataframe" where
  "head k df = map (\<lambda>(n, c). (n, take k c)) df"

fun select_columns :: "dataframe \<Rightarrow> string list \<Rightarrow> pd_error + dataframe" where
  "select_columns df [] = Inr []"
| "select_columns df (n # ns) =
     (case map_of df n of
        None \<Rightarrow> Inl (KeyError n)
      | Some c \<Rightarrow>
          (case select_columns df ns of
             Inl e \<Rightarrow> Inl e
           | Inr rest \<Rightarrow> Inr ((n, c) # rest)))"

text \<open>The dictionary \<open>team_stats\<close>, the same in both versions.\<close>

definition team_stats :: "dataframe \<Rightarrow> pd_error + (string \<times> pyfloat) list" where
  "team_stats processed_data =
     bind_err (col_mean processed_data ''PTS'') (\<lambda>pts.
     bind_err (col_mean processed_data ''AST'') (\<lambda>ast.
     bind_err (col_mean processed_data ''REB'') (\<lambda>reb.
     bind_err (col_mean processed_data ''FG_PCT'') (\<lambda>fg.
     bind_err (col_mean processed_data ''FG3_PCT'') (\<lambda>fg3.
       Inr [(''Points Per Game'', pts),
            (''Assists Per Game'', ast),
            (''Rebounds Per Game'', reb),
            (''Field Goal %'', np_scale fg 100),
            (''3PT %'', np_scale fg3 100)])))))"

text \<open>
  What \<open>main\<close> of streamlit\_app.py computes once the button is pressed, from the table
  that \<open>get_player_data\<close> returned, statement by statement: the processed table, the
  recent games, the inputs X and y of the training, the training, the team statistics,
  the impact metrics and the result that is charted. None: nothing is shown (no table,
  or an empty one). An exception of any statement ends the run.
\<close>

record 'm analysis =
  recent_games :: dataframe
  model_X :: dataframe
  model_y :: series
  trained_best :: "'m option"
  model_results :: "(string \<times> 'm model_result) list"
  library_calls :: "lib_call list"
  team_statistics :: "(string \<times> pyfloat) list"
  impact :: "(string \<times> pyfloat) list"
  charted :: "'m model_result"

definition analyze_processed :: "'m sklearn \<Rightarrow> dataframe \<Rightarrow> pd_error + 'm analysis option" where
  "analyze_processed lib processed_data =
     bind_err (select_columns (head 5 processed_data)
                 [''GAME_DATE'', ''MATCHUP'', ''MIN'', ''PTS'', ''AST'', ''REB'']) (\<lambda>recent.
     bind_err (model_inputs processed_data) (\<lambda>Xy.
     bind_err (team_stats processed_data) (\<lambda>ts.
     bind_err (impact_metrics processed_data) (\<lambda>im.
     bind_err (best_result (fst (snd (train_models lib (fst Xy) (snd Xy))))) (\<lambda>chart.
       Inr (Some \<lparr>recent_games = recent, model_X = fst Xy, model_y = snd Xy,
                  trained_best = fst (train_models lib (fst Xy) (snd Xy)),
                  model_results = fst (snd (train_models lib (fst Xy) (snd Xy))),
                  library_calls = snd (snd (train_models lib (fst Xy) (snd Xy))),
                  team_statistics = ts, impact = im, charted = chart\<rparr>))))))"

definition main_analysis :: "'m sklearn \<Rightarrow> dataframe option \<Rightarrow> pd_error + 'm analysis option" where
  "main_analysis lib player_data =
     (case player_data of
        None \<Rightarrow> Inr None
      | Some df \<Rightarrow>
          if df_empty df then Inr None
          else (case snd (preprocess_game_log (Some df)) of
                  Inl e \<Rightarrow> Inl e
                | Inr None \<Rightarrow> Inr None
                | Inr (Some processed_data) \<Rightarrow>
                    if df_empty processed_data then Inr None
                    else analyze_processed lib processed_data))"

text \<open>The same for \<open>main\<close> of 1streamlit\_app.py, which trains nothing.\<close>

record analysis1 =
  recent_games1 :: dataframe
  team_statistics1 :: "(string \<times> pyfloat) list"
  impact1 :: "(string \<times> pyfloat) list"

definition analyze_processed1 :: "dataframe \<Rightarrow> pd_error + analysis1 option" where
  "analyze_processed1 processed_df =
     bind_err (select_columns (head 5 processed_df)
                 [''GAME_DATE'', ''MATCHUP'', ''MIN'', ''PTS'', ''AST'', ''REB'']) (\<lambda>recent.
     bind_err (team_stats processed_df) (\<lambda>ts.
     bind_err (impact_metrics1 processed_df) (\<lambda>im.
       Inr (Some \<lparr>recent_games1 = recent, team_statistics1 = ts, impact1 = im\<rparr>))))"

definition main1_analysis :: "dataframe option \<Rightarrow> pd_error + analysis1 option" where
  "main1_analysis player_df =
     (case player_df of
        None \<Rightarrow> Inr None
      | Some df \<Rightarrow>
          if df_empty df then Inr None
          else (case snd (preprocess_game_log1 (Some df)) of
                  Inl e \<Rightarrow> Inl e
                | Inr None \<Rightarrow> Inr None
                | Inr (Some processed_df) \<Rightarrow>
                    if df_empty processed_df then Inr None
                    else analyze_processed1 processed_df))"

text \<open>
  Worked examples: the two-game log with its date and matchup columns, and a player with
  ten games and no minutes, no shots and no points in any of them.
\<close>

definition two_games_dated :: dataframe where
  "two_games_dated = (''MATCHUP'', [Txt ''LAL vs. BOS'', Txt ''LAL @ DEN'']) # two_games"

definition zero_minutes :: dataframe where
  "zero_minutes =
     (''GAME_DATE'', replicate 10 (Txt ''APR 02, 2025'')) #
     (''MATCHUP'', replicate 10 (Txt ''LAL vs. BOS'')) #
     (''PTS'', replicate 10 (Num 0)) #
     map (\<lambda>f. (f, replicate 10 (Num 0))) features"

section \<open>Properties of the fetch\<close>

lemma attempt_loop_fetch:
  "attempt_loop (fetch_player_gamelog endpoint) pid name mr season (a # rest) gamelogs evs =
     (Continue (case season_fetch endpoint pid evs season of
                  Some g \<Rightarrow> gamelogs @ [g] | None \<Rightarrow> gamelogs),
      evs @ (Request pid season #
             (case season_fetch endpoint pid evs season of
                Some g \<Rightarrow> [] | None \<Rightarrow> [StError season])))"
  by (simp add: fetch_player_gamelog_def season_fetch_def split: outcome.splits)

lemma upt_MAX_RETRIES: "[0 ..< MAX_RETRIES] = 0 # [1, 2]"
  by (simp add: MAX_RETRIES_def upt_rec)

lemma seasons_differ: "SEASON_CURRENT \<noteq> SEASON_PREVIOUS"
  by (simp add: SEASON_CURRENT_def SEASON_PREVIOUS_def)

lemma season_fetch_later:
  "s \<noteq> s' \<Longrightarrow>
   season_fetch endpoint pid
     (evs @ Request pid s # (case x of Some g \<Rightarrow> [] | None \<Rightarrow> [StError s])) s'
   = season_fetch endpoint pid evs s'"
  by (simp add: season_fetch_def requests_so_far_def split: option.splits)

lemma season_loop_fetch:
  "season_loop (fetch_player_gamelog endpoint) pid name MAX_RETRIES
     [SEASON_CURRENT, SEASON_PREVIOUS] [] evs =
     (Continue (List.map_filter (season_fetch endpoint pid evs)
                  [SEASON_CURRENT, SEASON_PREVIOUS]),
      evs @ concat (map (\<lambda>s. Request pid s #
                              (case season_fetch endpoint pid evs s of
                                 Some g \<Rightarrow> [] | None \<Rightarrow> [StError s]))
                     [SEASON_CURRENT, SEASON_PREVIOUS]))"
  using seasons_differ
  by (simp add: upt_MAX_RETRIES attempt_loop_fetch season_fetch_later List.map_filter_simps
       del: attempt_loop.simps split: option.splits)

lemma combine_seasons_fetch:
  "combine_seasons (fetch_player_gamelog endpoint) pid name MAX_RETRIES evs =
     (let ok = List.map_filter (season_fetch endpoint pid evs)
                 [SEASON_CURRENT, SEASON_PREVIOUS]
      in (if ok = [] then Inr None else Inr (Some (pd_concat ok)),
          evs @ concat (map (\<lambda>s. Request pid s #
                                  (case season_fetch endpoint pid evs s of
                                     Some g \<Rightarrow> [] | None \<Rightarrow> [StError s]))
                         [SEASON_CURRENT, SEASON_PREVIOUS])))"
  by (simp add: combine_seasons_def season_loop_fetch Let_def del: season_loop.simps)

text \<open>
  The retry branch itself, run with a fetch that does raise ReadTimeout: three requests,
  two sleeps of 2 seconds, then \<open>return None\<close> for the whole player. With
  \<open>fetch_player_gamelog\<close> as the fetch this branch is never entered
  (\<open>attempt_loop_fetch\<close>).
\<close>

lemma attempt_loop_always_timeout:
  "attempt_loop always_timeout 2544 ''P'' MAX_RETRIES SEASON_CURRENT [0 ..< MAX_RETRIES] [] [] =
     (ReturnNone,
      [Request 2544 SEASON_CURRENT, Sleep 2, Request 2544 SEASON_CURRENT, Sleep 2,
       Request 2544 SEASON_CURRENT, StError ''P''])"
  unfolding upt_MAX_RETRIES by (simp add: always_timeout_def MAX_RETRIES_def)

subsection \<open>Concatenation stacks rows\<close>

lemma first_seen_covered: "set xs \<subseteq> set seen \<Longrightarrow> first_seen seen xs = []"
  by (induction xs) auto

lemma first_seen_fresh:
  "distinct xs \<Longrightarrow> set xs \<inter> set seen = {} \<Longrightarrow>
   first_seen seen (xs @ ys) = xs @ first_seen (rev xs @ seen) ys"
  by (induction xs arbitrary: seen) auto

lemma concat_names:
  assumes "list_all (same_columns names) fs"
  shows "set (concat (map (map fst) fs)) \<subseteq> set names"
  using assms by (induction fs) (auto simp: same_columns_def)

lemma pd_concat_names:
  assumes "list_all (same_columns names) fs" "fs \<noteq> []" "distinct names"
  shows "first_seen [] (concat (map (map fst) fs)) = names"
proof -
  obtain f rest where fs: "fs = f # rest" using assms(2) by (cases fs) auto
  have f: "map fst f = names" and rest: "list_all (same_columns names) rest"
    using assms(1) fs by (auto simp: same_columns_def)
  have "first_seen [] (names @ concat (map (map fst) rest)) =
          names @ first_seen (rev names @ []) (concat (map (map fst) rest))"
    using assms(3) by (intro first_seen_fresh) auto
  moreover have "first_seen (rev names @ []) (concat (map (map fst) rest)) = []"
    using concat_names[OF rest] by (intro first_seen_covered) auto
  ultimately show ?thesis using fs f by simp
qed

lemma pd_concat_stacked:
  assumes "list_all (same_columns names) fs" "fs \<noteq> []" "distinct names"
  shows "pd_concat fs = stacked names fs"
  unfolding pd_concat_def pd_concat_names[OF assms] stacked_def col_or_na_def by simp

lemma col_or_na_length:
  assumes "same_columns names f"
  shows "length (col_or_na f n) = nrows f"
proof (cases "map_of f n")
  case None
  then show ?thesis by (simp add: col_or_na_def)
next
  case (Some c)
  then have "(n, c) \<in> set f" by (rule map_of_SomeD)
  then have "length c = nrows f" using assms by (auto simp: same_columns_def list_all_iff)
  then show ?thesis using Some by (simp add: col_or_na_def)
qed

lemma frame_by_names:
  assumes "same_columns names f" "distinct names"
  shows "map (\<lambda>n. (n, col_or_na f n)) names = f"
proof -
  have d: "distinct (map fst f)" and n: "names = map fst f"
    using assms by (auto simp: same_columns_def)
  have "map (\<lambda>n. (n, col_or_na f n)) (map fst f) = f"
  proof (rule nth_equalityI)
    show "length (map (\<lambda>n. (n, col_or_na f n)) (map fst f)) = length f" by simp
  next
    fix i assume "i < length (map (\<lambda>n. (n, col_or_na f n)) (map fst f))"
    then have i: "i < length f" by simp
    obtain k c where kc: "f ! i = (k, c)" by (cases "f ! i")
    then have "(k, c) \<in> set f" using i by (metis nth_mem)
    then have "map_of f k = Some c" using d by (rule map_of_is_SomeI[rotated])
    then show "map (\<lambda>n. (n, col_or_na f n)) (map fst f) ! i = f ! i"
      using i kc by (simp add: col_or_na_def)
  qed
  then show ?thesis using n by simp
qed

lemma nrows_stacked:
  assumes "names \<noteq> []" "list_all (same_columns names) fs"
  shows "nrows (stacked names fs) = sum_list (map nrows fs)"
proof -
  obtain n ns where names: "names = n # ns" using assms(1) by (cases names) auto
  have "length (concat (map (\<lambda>f. col_or_na f n) fs)) = sum_list (map nrows fs)"
    using assms(2) by (induction fs) (auto simp: col_or_na_length)
  then show ?thesis by (simp add: stacked_def names nrows_def)
qed

lemma rows_stacked:
  assumes "names \<noteq> []" "distinct names" "list_all (same_columns names) fs"
  shows "rows (stacked names fs) = concat (map rows fs)"
  using assms(3)
proof (induction fs)
  case Nil
  then show ?case using nrows_stacked[OF assms(1), of "[]"] by (simp add: rows_def)
next
  case (Cons f fs)
  have f: "same_columns names f" and fs: "list_all (same_columns names) fs"
    using Cons.prems by auto
  let ?m = "nrows (stacked names fs)"
  have total: "nrows (stacked names (f # fs)) = nrows f + ?m"
    using nrows_stacked[OF assms(1) Cons.prems] nrows_stacked[OF assms(1) fs] by simp
  have low: "map (\<lambda>(n, c). (n, c ! i)) (stacked names (f # fs)) = map (\<lambda>(n, c). (n, c ! i)) f"
    if "i < nrows f" for i
  proof -
    have "map (\<lambda>(n, c). (n, c ! i)) (stacked names (f # fs)) =
            map (\<lambda>n. (n, col_or_na f n ! i)) names"
      using that by (simp add: stacked_def comp_def nth_append col_or_na_length[OF f])
    also have "\<dots> = map (\<lambda>(n, c). (n, c ! i)) (map (\<lambda>n. (n, col_or_na f n)) names)"
      by (simp add: comp_def)
    finally show ?thesis unfolding frame_by_names[OF f assms(2)] .
  qed
  have high: "map (\<lambda>(n, c). (n, c ! (nrows f + k))) (stacked names (f # fs)) =
                map (\<lambda>(n, c). (n, c ! k)) (stacked names fs)" for k
    by (simp add: stacked_def comp_def nth_append col_or_na_length[OF f])
  let ?g = "\<lambda>i. map (\<lambda>(n, c). (n, c ! i)) (stacked names (f # fs))"
  have split: "[0 ..< nrows f + ?m] = [0 ..< nrows f] @ [nrows f ..< nrows f + ?m]"
    by (rule upt_add_eq_append) simp
  have shift: "[nrows f ..< nrows f + ?m] = map (\<lambda>k. nrows f + k) [0 ..< ?m]"
    using map_add_upt[of "nrows f" ?m] by (simp add: add.commute)
  have "rows (stacked names (f # fs)) = map ?g [0 ..< nrows f] @ map ?g [nrows f ..< nrows f + ?m]"
    unfolding rows_def total split by (rule map_append)
  also have "map ?g [0 ..< nrows f] = rows f"
    unfolding rows_def using low by simp
  also have "map ?g [nrows f ..< nrows f + ?m] = map (\<lambda>k. ?g (nrows f + k)) [0 ..< ?m]"
    unfolding shift by (simp add: comp_def)
  also have "\<dots> = rows (stacked names fs)" unfolding rows_def high ..
  finally show ?case using Cons.IH[OF fs] by simp
qed

lemma rows_pd_concat:
  assumes "fs \<noteq> []" "names \<noteq> []" "distinct names" "list_all (same_columns names) fs"
  shows "map fst (pd_concat fs) = names \<and> rows (pd_concat fs) = concat (map rows fs)"
  unfolding pd_concat_stacked[OF assms(4,1,3)]
  using rows_stacked[OF assms(2,3,4)] by (simp add: stacked_def comp_def)

text \<open>
  C1. Whatever the catalog and the endpoint answer, \<open>get_player_data\<close> with the default
  retry bound returns normally, and what it returns is: None when the player id is not
  resolved (no id, or the falsy id 0); otherwise the concatenation, in the order requested,
  of the game logs of the seasons whose fetch succeeded; and None only when no season's
  fetch succeeded. A season whose every request times out is one more failed season: the
  other season's rows are still returned. The concatenation is of rows: when the
  successful game logs are tables over the same columns, the returned table has those
  columns and its rows are the rows of the first successful season followed by the rows
  of the next.
\<close>

theorem get_player_data_isolates_seasons:
  "fst (get_player_data catalog endpoint player_name MAX_RETRIES evs) =
     (case get_player_id catalog player_name evs of
        (None, evs') \<Rightarrow> Inr None
      | (Some player_id, evs') \<Rightarrow>
          if player_id = 0 then Inr None
          else let ok = List.map_filter (season_fetch endpoint player_id evs')
                          [SEASON_CURRENT, SEASON_PREVIOUS]
               in if ok = [] then Inr None else Inr (Some (pd_concat ok))) \<and>
   (successful_seasons catalog endpoint player_name evs = [] \<longrightarrow>
      fst (get_player_data catalog endpoint player_name MAX_RETRIES evs) = Inr None) \<and>
   (successful_seasons catalog endpoint player_name evs \<noteq> [] \<longrightarrow>
      (\<exists>d. fst (get_player_data catalog endpoint player_name MAX_RETRIES evs) = Inr (Some d) \<and>
           (names \<noteq> [] \<and> distinct names \<and>
            list_all (same_columns names) (successful_seasons catalog endpoint player_name evs) \<longrightarrow>
              map fst d = names \<and>
              rows d = concat (map rows (successful_seasons catalog endpoint player_name evs)))))"
proof -
  let ?ok = "successful_seasons catalog endpoint player_name evs"
  have eq: "fst (get_player_data catalog endpoint player_name MAX_RETRIES evs) =
     (case get_player_id catalog player_name evs of
        (None, evs') \<Rightarrow> Inr None
      | (Some player_id, evs') \<Rightarrow>
          if player_id = 0 then Inr None
          else let ok = List.map_filter (season_fetch endpoint player_id evs')
                          [SEASON_CURRENT, SEASON_PREVIOUS]
               in if ok = [] then Inr None else Inr (Some (pd_concat ok)))"
    by (simp add: get_player_data_def combine_seasons_fetch Let_def split: option.splits prod.splits)
  have res: "fst (get_player_data catalog endpoint player_name MAX_RETRIES evs) =
               (if ?ok = [] then Inr None else Inr (Some (pd_concat ?ok)))"
    unfolding eq successful_seasons_def by (simp add: Let_def split: option.splits prod.splits)
  have c2: "?ok = [] \<longrightarrow>
              fst (get_player_data catalog endpoint player_name MAX_RETRIES evs) = Inr None"
    using res by simp
  have c3: "?ok \<noteq> [] \<longrightarrow>
      (\<exists>d. fst (get_player_data catalog endpoint player_name MAX_RETRIES evs) = Inr (Some d) \<and>
           (names \<noteq> [] \<and> distinct names \<and> list_all (same_columns names) ?ok \<longrightarrow>
              map fst d = names \<and> rows d = concat (map rows ?ok)))"
  proof
    assume ne: "?ok \<noteq> []"
    have 1: "fst (get_player_data catalog endpoint player_name MAX_RETRIES evs) =
               Inr (Some (pd_concat ?ok))"
      using res ne by simp
    have 2: "names \<noteq> [] \<and> distinct names \<and> list_all (same_columns names) ?ok \<longrightarrow>
               map fst (pd_concat ?ok) = names \<and> rows (pd_concat ?ok) = concat (map rows ?ok)"
      using rows_pd_concat[OF ne, of names] by blast
    show "\<exists>d. fst (get_player_data catalog endpoint player_name MAX_RETRIES evs) = Inr (Some d) \<and>
           (names \<noteq> [] \<and> distinct names \<and> list_all (same_columns names) ?ok \<longrightarrow>
              map fst d = names \<and> rows d = concat (map rows ?ok))"
      using 1 2 by (intro exI[of _ "pd_concat ?ok"] conjI)
  qed
  from eq c2 c3 show ?thesis by (intro conjI)
qed

theorem get_player_data_isolates_seasons_witness:
  "fst (get_player_data one_player_catalog timeout_then_ok ''LeBron James'' MAX_RETRIES []) =
     Inr (Some one_game) \<and>
   (\<exists>d. fst (get_player_data one_player_catalog both_seasons ''LeBron James'' MAX_RETRIES []) =
           Inr (Some d) \<and>
         map fst d = [''PTS'', ''MIN''] \<and>
         rows d = [[(''PTS'', Num 30), (''MIN'', Num 35)],
                   [(''PTS'', Num 25), (''MIN'', Num 33)],
                   [(''PTS'', Num 12), (''MIN'', Num 20)]])"
proof -
  have ok: "successful_seasons one_player_catalog both_seasons ''LeBron James'' [] =
              [current_games, previous_games]"
    by (simp add: successful_seasons_def get_player_id_def one_player_catalog_def
          season_fetch_def both_seasons_def List.map_filter_simps seasons_differ [symmetric])
  have tables: "list_all (same_columns [''PTS'', ''MIN'']) [current_games, previous_games]"
    by (simp add: same_columns_def current_games_def previous_games_def nrows_def)
  have r: "concat (map rows [current_games, previous_games]) =
             [[(''PTS'', Num 30), (''MIN'', Num 35)],
              [(''PTS'', Num 25), (''MIN'', Num 33)],
              [(''PTS'', Num 12), (''MIN'', Num 20)]]"
    by (simp add: rows_def current_games_def previous_games_def nrows_def upt_rec)
  have one: "fst (get_player_data one_player_catalog timeout_then_ok ''LeBron James'' MAX_RETRIES []) =
               Inr (Some one_game)"
    using get_player_data_isolates_seasons
            [of one_player_catalog timeout_then_ok "''LeBron James''" "[]" "[''PTS'', ''MIN'']",
             THEN conjunct1]
    by (simp add: get_player_id_def one_player_catalog_def season_fetch_def timeout_then_ok_def
          List.map_filter_simps seasons_differ [symmetric] pd_concat_def one_game_def nrows_def)
  have two: "\<exists>d. fst (get_player_data one_player_catalog both_seasons ''LeBron James'' MAX_RETRIES []) =
               Inr (Some d) \<and> map fst d = [''PTS'', ''MIN''] \<and>
               rows d = concat (map rows [current_games, previous_games])"
    using get_player_data_isolates_seasons
            [of one_player_catalog both_seasons "''LeBron James''" "[]" "[''PTS'', ''MIN'']",
             THEN conjunct2, THEN conjunct2]
      tables
    unfolding ok by auto
  show ?thesis using one two unfolding r by simp
qed

text \<open>
  C2. In every execution of \<open>get_player_data\<close> with the default retry bound, each season
  is requested exactly once and the program never sleeps: the requests and sleeps it adds
  to the log are the two requests, one per season, also when a request raises ReadTimeout
  or ConnectionError. So no execution attempts a season's fetch a second time.
\<close>

theorem get_player_data_never_retries:
  "filter is_attempt (snd (get_player_data catalog endpoint player_name MAX_RETRIES evs)) =
     filter is_attempt evs @
     (case fst (get_player_id catalog player_name evs) of
        None \<Rightarrow> []
      | Some player_id \<Rightarrow>
          if player_id = 0 then []
          else [Request player_id SEASON_CURRENT, Request player_id SEASON_PREVIOUS])"
  by (simp add: get_player_data_def combine_seasons_fetch Let_def get_player_id_def is_attempt_def
        split: option.splits prod.splits outcome.splits list.splits)

theorem get_player_data_never_retries_witness:
  "filter is_attempt
     (snd (get_player_data one_player_catalog timeout_then_ok ''LeBron James'' MAX_RETRIES [])) =
     [Request 2544 SEASON_CURRENT, Request 2544 SEASON_PREVIOUS]"
  using get_player_data_never_retries
          [of one_player_catalog timeout_then_ok "''LeBron James''" "[]"]
  by (simp add: get_player_id_def one_player_catalog_def)

section \<open>Properties of the feature engineering\<close>

lemma starts_with_append: "starts_with p (p @ s)"
  by (induction p) auto

lemma str_in_append: "str_in p (a @ p @ b)"
proof (induction a)
  case Nil
  show ?case by (cases "p @ b") (use starts_with_append[of p b] in auto)
next
  case (Cons c a)
  then show ?case by simp
qed

lemma str_in_roll: "mid = ''_rolling_'' \<or> mid = ''_roll_'' \<Longrightarrow> str_in ''_roll'' (f @ mid @ s)"
proof -
  assume "mid = ''_rolling_'' \<or> mid = ''_roll_''"
  then obtain r where "mid = ''_roll'' @ r" by auto
  then have "f @ mid @ s = f @ ''_roll'' @ (r @ s)" by simp
  then show ?thesis using str_in_append[of "''_roll''" f "r @ s"] by simp
qed

lemma map_of_append_left: "map_of df f = Some col \<Longrightarrow> map_of (df @ extra) f = Some col"
  by (simp add: map_add_Some_iff)

lemma window_loop_appends:
  assumes "map_of df f = Some col" "\<not> list_ex is_text col"
    and "distinct (map (\<lambda>w. f @ mid @ str_nat w) ws)"
    and "\<forall>w\<in>set ws. f @ mid @ str_nat w \<notin> fst ` set df"
  shows "window_loop mid f ws df =
           (df @ map (\<lambda>w. (f @ mid @ str_nat w, roll w col)) ws, None)"
  using assms
proof (induction ws arbitrary: df)
  case Nil
  then show ?case by simp
next
  case (Cons w ws)
  let ?df' = "df @ [(f @ mid @ str_nat w, roll w col)]"
  have 1: "map_of ?df' f = Some col" using Cons.prems(1) by (rule map_of_append_left)
  have 2: "\<forall>w'\<in>set ws. f @ mid @ str_nat w' \<notin> fst ` set ?df'"
  proof
    fix w' assume w': "w' \<in> set ws"
    then have "f @ mid @ str_nat w' \<in> (\<lambda>w. f @ mid @ str_nat w) ` set ws" by (rule imageI)
    moreover have "f @ mid @ str_nat w \<notin> (\<lambda>w. f @ mid @ str_nat w) ` set ws"
      using Cons.prems(3) by simp
    ultimately have "f @ mid @ str_nat w' \<noteq> f @ mid @ str_nat w" by metis
    moreover have "f @ mid @ str_nat w' \<notin> fst ` set df" using Cons.prems(4) w' by simp
    ultimately show "f @ mid @ str_nat w' \<notin> fst ` set ?df'" by simp
  qed
  have 3: "distinct (map (\<lambda>w. f @ mid @ str_nat w) ws)" using Cons.prems(3) by simp
  have "window_loop mid f ws ?df' = (?df' @ map (\<lambda>w. (f @ mid @ str_nat w, roll w col)) ws, None)"
    using Cons.IH[OF 1 Cons.prems(2) 3 2] .
  moreover have "window_loop mid f (w # ws) df = window_loop mid f ws ?df'"
    using Cons.prems(1,2,4)
    by (simp add: get_column_def rolling_mean_def set_column_def roll_def)
  ultimately show ?case by simp
qed

lemma rolling_of_Some: "map_of df f = Some col \<Longrightarrow> rolling_of df f w = roll w col"
  by (simp add: rolling_of_def roll_def)

lemma feature_loop_appends:
  assumes "\<forall>f\<in>set fs. \<exists>col. map_of df f = Some col \<and> \<not> list_ex is_text col"
    and "distinct (col_names mid ws fs)"
    and "\<forall>n\<in>set (col_names mid ws fs). n \<notin> fst ` set (df @ extra)"
  shows "feature_loop mid ws fs (df @ extra) =
           (df @ extra @ concat (map (\<lambda>f. map (\<lambda>w. (f @ mid @ str_nat w, rolling_of df f w)) ws) fs),
            None)"
  using assms
proof (induction fs arbitrary: extra)
  case Nil
  then show ?case by simp
next
  case (Cons f fs)
  obtain col where col: "map_of df f = Some col" "\<not> list_ex is_text col"
    using Cons.prems(1) by auto
  let ?new = "map (\<lambda>w. (f @ mid @ str_nat w, roll w col)) ws"
  have names: "col_names mid ws (f # fs) = map (\<lambda>w. f @ mid @ str_nat w) ws @ col_names mid ws fs"
    by (simp add: col_names_def)
  have d1: "distinct (map (\<lambda>w. f @ mid @ str_nat w) ws)"
    and d2: "distinct (col_names mid ws fs)"
    and d3: "set (map (\<lambda>w. f @ mid @ str_nat w) ws) \<inter> set (col_names mid ws fs) = {}"
    using Cons.prems(2) unfolding names by auto
  have fresh1: "\<forall>w\<in>set ws. f @ mid @ str_nat w \<notin> fst ` set (df @ extra)"
    using Cons.prems(3) unfolding names by auto
  have step: "window_loop mid f ws (df @ extra) = ((df @ extra) @ ?new, None)"
    using window_loop_appends[OF map_of_append_left[OF col(1)] col(2) d1 fresh1] .
  have fst_new: "fst ` set ?new = set (map (\<lambda>w. f @ mid @ str_nat w) ws)"
    by (auto simp: image_iff)
  have fresh2: "\<forall>n\<in>set (col_names mid ws fs). n \<notin> fst ` set (df @ (extra @ ?new))"
  proof
    fix n assume n: "n \<in> set (col_names mid ws fs)"
    then have "n \<notin> fst ` set (df @ extra)" using Cons.prems(3) unfolding names by auto
    moreover have "n \<notin> fst ` set ?new" using d3 n unfolding fst_new by auto
    ultimately show "n \<notin> fst ` set (df @ (extra @ ?new))" by (simp add: image_Un)
  qed
  have rest: "\<forall>f\<in>set fs. \<exists>col. map_of df f = Some col \<and> \<not> list_ex is_text col"
    using Cons.prems(1) by simp
  have "feature_loop mid ws (f # fs) (df @ extra) = feature_loop mid ws fs (df @ (extra @ ?new))"
    using step by simp
  also have "\<dots> = (df @ (extra @ ?new) @
       concat (map (\<lambda>f. map (\<lambda>w. (f @ mid @ str_nat w, rolling_of df f w)) ws) fs), None)"
    using Cons.IH[OF rest d2 fresh2] .
  finally show ?case using col(1) by (simp add: rolling_of_Some)
qed

lemma numeric_series: "list_all is_num col \<Longrightarrow> \<exists>vs. col = map Num vs"
proof (induction col)
  case Nil
  then show ?case by simp
next
  case (Cons c col)
  then obtain vs where "col = map Num vs" by auto
  moreover obtain v where "c = Num v" using Cons.prems by (cases c) (auto simp: is_num_def)
  ultimately have "c # col = map Num (v # vs)" by simp
  then show ?case by (rule exI)
qed

lemma numeric_no_text: "list_all is_num col \<Longrightarrow> \<not> list_ex is_text col"
  by (induction col) (auto simp: is_num_def is_text_def split: cell.splits)

lemma observations_Num: "observations (map Num vs) = vs"
  by (induction vs) (auto simp: observations_def)

lemma window_at_Num:
  "window_at w (map Num vs) i = map Num (drop (Suc i - w) (take (Suc i) vs))"
  by (simp add: window_at_def drop_map take_map)

lemma window_length:
  "i < length vs \<Longrightarrow> length (drop (Suc i - w) (take (Suc i) vs)) = min (Suc i) w"
  by auto

lemma window_mean_Num:
  assumes "i < length vs" "0 < w"
  shows "window_mean 1 (window_at w (map Num vs) i) =
           Num (sum_list (drop (Suc i - w) (take (Suc i) vs)) / of_nat (min (Suc i) w))"
proof -
  let ?win = "drop (Suc i - w) (take (Suc i) vs)"
  have len: "length ?win = min (Suc i) w" using assms(1) by (rule window_length)
  then have "0 < length ?win" using assms(2) by simp
  then have "?win \<noteq> []" "1 \<le> length ?win" by auto
  then show ?thesis
    unfolding window_mean_def window_at_Num observations_Num Let_def len [symmetric] by simp
qed

lemma roll_Num:
  "0 < w \<Longrightarrow> roll w (map Num vs) =
     map (\<lambda>i. Num (sum_list (drop (Suc i - w) (take (Suc i) vs)) / of_nat (min (Suc i) w)))
       [0 ..< length vs]"
  using window_mean_Num by (simp add: roll_def)

lemma roll_complete:
  assumes "list_all is_num col" "0 < w"
  shows "length (roll w col) = length col \<and> list_all (\<lambda>x. x \<noteq> NA) (roll w col)"
proof -
  obtain vs where "col = map Num vs" using numeric_series[OF assms(1)] by blast
  then show ?thesis using roll_Num[OF assms(2), of vs] by (simp add: list_all_iff)
qed

lemma dropna_complete:
  assumes "list_all (\<lambda>(n, c). length c = nrows fr \<and> list_all (\<lambda>x. x \<noteq> NA) c) fr"
  shows "dropna fr = fr"
proof -
  have row: "complete_row fr i" if "i < nrows fr" for i
    unfolding complete_row_def list_all_iff
  proof safe
    fix n c assume "(n, c) \<in> set fr" "c ! i = NA"
    then have "length c = nrows fr" "\<forall>x\<in>set c. x \<noteq> NA"
      using assms by (auto simp: list_all_iff)
    then show False using that \<open>c ! i = NA\<close> by (metis nth_mem)
  qed
  then have keep: "filter (complete_row fr) [0 ..< nrows fr] = [0 ..< nrows fr]"
    by (simp add: filter_id_conv)
  have "map (\<lambda>(n, c). (n, map (\<lambda>i. c ! i) [0 ..< nrows fr])) fr = fr"
  proof (rule map_idI)
    fix x assume x: "x \<in> set fr"
    obtain n c where nc: "x = (n, c)" by (cases x)
    then have "nrows fr = length c" using assms x by (auto simp: list_all_iff)
    then show "(case x of (n, c) \<Rightarrow> (n, map (\<lambda>i. c ! i) [0 ..< nrows fr])) = x"
      using nc by (simp add: map_nth)
  qed
  then show ?thesis by (simp add: dropna_def keep)
qed

lemma col_names_distinct:
  "mid = ''_rolling_'' \<or> mid = ''_roll_'' \<Longrightarrow>
   distinct (col_names mid rolling_windows (features @ [target]))"
  by (auto simp: col_names_def features_def target_def rolling_windows_def str_nat.simps digit_char_def)

lemma rolling_columns_alt:
  "rolling_columns mid df =
     concat (map (\<lambda>f. map (\<lambda>w. (f @ mid @ str_nat w, rolling_of df f w)) rolling_windows)
               (features @ [target]))"
  by (simp add: rolling_columns_def)

lemma nrows_append: "df \<noteq> [] \<Longrightarrow> nrows (df @ extra) = nrows df"
  by (cases df) (simp_all add: nrows_def)

lemma preprocess_ok:
  assumes ok: "game_log_ok df" and mid: "mid = ''_rolling_'' \<or> mid = ''_roll_''"
  shows "preprocess_with mid (Some df) =
           (Some (df @ rolling_columns mid df), Inr (Some (df @ rolling_columns mid df)))"
proof -
  have rows: "0 < nrows df"
    and cols: "\<forall>(n, c)\<in>set df. length c = nrows df \<and> list_all (\<lambda>x. x \<noteq> NA) c \<and> \<not> str_in ''_roll'' n"
    and fields: "\<forall>f\<in>set (features @ [target]). \<exists>c. map_of df f = Some c \<and> list_all is_num c"
    using ok unfolding game_log_ok_def list_all_iff by (auto split: option.splits)
  have nonempty: "df \<noteq> []" "\<not> df_empty df"
    using rows by (auto simp: df_empty_def nrows_def)
  have feats: "\<forall>f\<in>set (features @ [target]). \<exists>col. map_of df f = Some col \<and> \<not> list_ex is_text col"
    using fields numeric_no_text by blast
  have fresh: "\<forall>n\<in>set (col_names mid rolling_windows (features @ [target])). n \<notin> fst ` set (df @ [])"
  proof
    fix n assume "n \<in> set (col_names mid rolling_windows (features @ [target]))"
    then obtain f w where "n = f @ mid @ str_nat w" unfolding col_names_def by auto
    then have "str_in ''_roll'' n" using str_in_roll[OF mid] by simp
    then show "n \<notin> fst ` set (df @ [])" using cols by auto
  qed
  have loop: "feature_loop mid rolling_windows (features @ [target]) df =
                (df @ rolling_columns mid df, None)"
    using feature_loop_appends[OF feats col_names_distinct[OF mid] fresh]
    unfolding rolling_columns_alt by simp
  have new: "length c = nrows df \<and> list_all (\<lambda>x. x \<noteq> NA) c"
    if nc: "(n, c) \<in> set (rolling_columns mid df)" for n c
  proof -
    obtain f w where f: "f \<in> set (features @ [target])" and w: "w \<in> set rolling_windows"
      and c: "c = rolling_of df f w"
      using nc unfolding rolling_columns_alt by auto
    obtain col where col: "map_of df f = Some col" "list_all is_num col"
      using fields f by blast
    have "(f, col) \<in> set df" using col(1) by (rule map_of_SomeD)
    then have "length col = nrows df" using cols by auto
    moreover have "0 < w" using w by (auto simp: rolling_windows_def)
    ultimately show ?thesis
      using roll_complete[OF col(2), of w] c rolling_of_Some[OF col(1)] by simp
  qed
  have "list_all (\<lambda>(n, c). length c = nrows (df @ rolling_columns mid df) \<and>
                            list_all (\<lambda>x. x \<noteq> NA) c) (df @ rolling_columns mid df)"
    unfolding nrows_append[OF nonempty(1)] using cols new by (fastforce simp: list_all_iff)
  then have "dropna (df @ rolling_columns mid df) = df @ rolling_columns mid df"
    by (rule dropna_complete)
  then show ?thesis using nonempty(2) loop by (simp add: preprocess_with_def)
qed

lemma rolling_columns_length: "length (rolling_columns mid df) = 51"
  by (simp add: rolling_columns_def features_def target_def rolling_windows_def)

lemma recent_window:
  "drop (Suc i - w) (take (Suc i) vs) = take (min (i + 1) w) (drop (i + 1 - min (i + 1) w) vs)"
proof -
  have "Suc i - w = i + 1 - min (i + 1) w" by auto
  moreover have "Suc i - (Suc i - w) = min (i + 1) w" by auto
  ultimately show ?thesis by (simp add: drop_take)
qed

lemma map_of_rolling_columns:
  assumes "f \<in> set (features @ [target])" "w \<in> set rolling_windows"
    and "mid = ''_rolling_'' \<or> mid = ''_roll_''"
  shows "map_of (rolling_columns mid df) (f @ mid @ str_nat w) = Some (rolling_of df f w)"
proof -
  have d: "distinct (map fst (rolling_columns mid df))"
    using col_names_distinct[OF assms(3)]
    by (simp add: rolling_columns_def col_names_def map_concat comp_def)
  have "(f @ mid @ str_nat w, rolling_of df f w) \<in> set (rolling_columns mid df)"
    using assms(1,2) unfolding rolling_columns_alt by auto
  then show ?thesis using d by simp
qed

lemma game_log_ok_fresh:
  assumes "game_log_ok df" "mid = ''_rolling_'' \<or> mid = ''_roll_''"
  shows "map_of df (f @ mid @ s) = None"
proof -
  have "\<forall>(n, c)\<in>set df. \<not> str_in ''_roll'' n"
    using assms(1) unfolding game_log_ok_def list_all_iff by auto
  then have "f @ mid @ s \<notin> fst ` set df" using str_in_roll[OF assms(2), of f s] by auto
  then show ?thesis by (simp add: map_of_eq_None_iff)
qed

lemma processed_rolling_column:
  assumes ok: "game_log_ok df" and f: "f \<in> set (features @ [target])"
    and w: "w \<in> set rolling_windows" and col: "map_of df f = Some (map Num vs)"
  shows "returned_column (preprocess_game_log (Some df)) (f @ ''_rolling_'' @ str_nat w) =
           Some (map (\<lambda>i. Num (sum_list (drop (Suc i - w) (take (Suc i) vs)) / of_nat (min (Suc i) w)))
                   [0 ..< length vs])"
proof -
  have pos: "0 < w" using w by (auto simp: rolling_windows_def)
  have "returned_column (preprocess_game_log (Some df)) (f @ ''_rolling_'' @ str_nat w) =
          map_of (df @ rolling_columns ''_rolling_'' df) (f @ ''_rolling_'' @ str_nat w)"
    using preprocess_ok[OF ok, of "''_rolling_''"]
    by (simp add: preprocess_game_log_def returned_column_def)
  also have "\<dots> = Some (rolling_of df f w)"
    using game_log_ok_fresh[OF ok, of "''_rolling_''" f "str_nat w"]
      map_of_rolling_columns[OF f w, of "''_rolling_''" df]
    by (simp add: map_add_def)
  also have "rolling_of df f w = roll w (map Num vs)" using col by (rule rolling_of_Some)
  finally show ?thesis using roll_Num[OF pos, of vs] by simp
qed

text \<open>
  C4. For a game log, each of the 17 fields and each window w of 3, 5 and 10, the column
  \<open>field_rolling_w\<close> of the table that \<open>preprocess_game_log\<close> returns holds at each row
  index i the arithmetic mean of the min(i+1, w) most recent values of the field, up to
  and including row i. On the two-row field [10, 20] the window-3 column is [10, 15].
\<close>

theorem rolling_column_is_mean_of_recent:
  assumes "game_log_ok df" and "field \<in> set (features @ [target])"
    and "w \<in> set rolling_windows" and "map_of df field = Some (map Num vs)"
  shows "returned_column (preprocess_game_log (Some df)) (field @ ''_rolling_'' @ str_nat w) =
           Some (map (\<lambda>i. Num (sum_list (take (min (i + 1) w) (drop (i + 1 - min (i + 1) w) vs))
                                / of_nat (min (i + 1) w)))
                   [0 ..< length vs])"
  using processed_rolling_column[OF assms] by (simp add: recent_window)

lemma two_games_ok: "game_log_ok two_games"
  by (simp add: game_log_ok_def two_games_def features_def target_def nrows_def is_num_def)

theorem rolling_column_is_mean_of_recent_witness:
  "returned_column (preprocess_game_log (Some two_games)) ''PTS_rolling_3'' =
     Some [Num 10, Num 15]"
proof -
  have 1: "''PTS'' \<in> set (features @ [target])" by (simp add: target_def)
  have 2: "(3::nat) \<in> set rolling_windows" by (simp add: rolling_windows_def)
  have 3: "map_of two_games ''PTS'' = Some (map Num [10, 20])" by (simp add: two_games_def)
  have 4: "[0 ..< length [10, 20 :: rat]] = [0, 1]" by (simp add: upt_rec)
  show ?thesis
    using rolling_column_is_mean_of_recent[OF two_games_ok 1 2 3]
    unfolding 4 by (simp add: str_nat.simps digit_char_def)
qed

lemma window_sum_split:
  fixes vs :: "rat list"
  assumes "i < length vs" "0 < w"
  shows "sum_list (drop (Suc i - w) (take (Suc i) vs)) =
           vs ! i + sum_list (drop (Suc i - w) (take i vs))"
proof -
  have "take (Suc i) vs = take i vs @ [vs ! i]" using assms(1) by (rule take_Suc_conv_app_nth)
  moreover have "Suc i - w \<le> length (take i vs)" using assms by simp
  ultimately show ?thesis using assms by (simp add: min_absorb2)
qed

lemma rolling_columns_names:
  "map fst (rolling_columns mid df) = col_names mid rolling_windows (features @ [target])"
  by (simp add: rolling_columns_def col_names_def map_concat comp_def)

lemma map_of_filter_names:
  "map_of (filter (\<lambda>(n, c). P n) xs) k = (if P k then map_of xs k else None)"
  by (induction xs) auto

lemma map_of_X:
  "model_inputs processed = Inr (X, y) \<Longrightarrow> str_in ''_rolling_'' k \<Longrightarrow> map_of X k = map_of processed k"
proof -
  assume a: "model_inputs processed = Inr (X, y)" and k: "str_in ''_rolling_'' k"
  have X: "X = filter (\<lambda>(n, c). n \<in> set (filter (str_in ''_rolling_'') (map fst processed))) processed"
    using a by (auto simp: model_inputs_def Let_def split: sum.splits)
  show ?thesis
  proof (cases "k \<in> fst ` set processed")
    case True
    then show ?thesis using k unfolding X by (simp add: map_of_filter_names)
  next
    case False
    then have "map_of processed k = None" by (simp add: map_of_eq_None_iff)
    then show ?thesis using False unfolding X by (simp add: map_of_filter_names)
  qed
qed

text \<open>
  C8, as stated, fails on the two-game log: after the call the caller's table is no longer
  the table passed in, it has grown by 51 columns (not 48), among them
  \<open>BLK_rolling_10\<close>, and it equals the returned table.
\<close>

theorem preprocess_game_log_changes_its_argument:
  "fst (preprocess_game_log (Some two_games)) \<noteq> Some two_games \<and>
   map_option length (fst (preprocess_game_log (Some two_games))) = Some (length two_games + 51) \<and>
   returned_column (preprocess_game_log (Some two_games)) ''BLK_rolling_10'' \<noteq> None \<and>
   snd (preprocess_game_log (Some two_games)) = Inr (fst (preprocess_game_log (Some two_games)))"
proof -
  have "length (rolling_columns ''_rolling_'' two_games) = 51" by (rule rolling_columns_length)
  then have "rolling_columns ''_rolling_'' two_games \<noteq> []" by auto
  then show ?thesis
    using preprocess_ok[OF two_games_ok, of "''_rolling_''"]
      map_of_rolling_columns[of "''BLK''" 10 "''_rolling_''" two_games]
      game_log_ok_fresh[OF two_games_ok, of "''_rolling_''" "''BLK''" "''10''"]
    by (simp add: preprocess_game_log_def rolling_columns_length returned_column_def
          features_def rolling_windows_def str_nat.simps digit_char_def map_add_def)
qed

text \<open>
  C8, amended. For every game log, \<open>preprocess_game_log\<close> (in both versions of the
  program) returns the input's columns, rows unchanged, followed by exactly 51 rolling
  columns, one per field (the 16 features and PTS) and window; the table passed in is
  left holding the same 51 added columns. The result is a function of the input table
  alone, so equal inputs give equal outputs.
\<close>

theorem preprocess_game_log_appends_51_columns:
  assumes "game_log_ok df"
  shows "preprocess_game_log (Some df) =
           (Some (df @ rolling_columns ''_rolling_'' df),
            Inr (Some (df @ rolling_columns ''_rolling_'' df))) \<and>
         preprocess_game_log1 (Some df) =
           (Some (df @ rolling_columns ''_roll_'' df),
            Inr (Some (df @ rolling_columns ''_roll_'' df))) \<and>
         length (rolling_columns ''_rolling_'' df) = 51 \<and>
         length (rolling_columns ''_roll_'' df) = 51 \<and>
         map fst (rolling_columns ''_rolling_'' df) =
           col_names ''_rolling_'' rolling_windows (features @ [target])"
  using preprocess_ok[OF assms, of "''_rolling_''"] preprocess_ok[OF assms, of "''_roll_''"]
  by (simp add: preprocess_game_log_def preprocess_game_log1_def rolling_columns_length
        rolling_columns_names)

theorem preprocess_game_log_appends_51_columns_witness:
  "preprocess_game_log (Some two_games) =
     (Some (two_games @ rolling_columns ''_rolling_'' two_games),
      Inr (Some (two_games @ rolling_columns ''_rolling_'' two_games))) \<and>
   length (rolling_columns ''_rolling_'' two_games) = 51"
  using preprocess_game_log_appends_51_columns[OF two_games_ok] by simp

section \<open>Properties of the training and selection\<close>

lemma candidate_loop_run:
  assumes "distinct (map fst cands)"
    and "\<forall>n\<in>set (map fst cands). n \<notin> set (map fst (results st))"
  shows "candidate_loop lib X_train X_test y_train yt cands st =
           \<lparr>best_model =
              fst (select_best (map (\<lambda>(name, m). (name, candidate_result lib X_train X_test y_train yt m)) cands)
                     (best_model st, best_score st)),
            best_score =
              snd (select_best (map (\<lambda>(name, m). (name, candidate_result lib X_train X_test y_train yt m)) cands)
                     (best_model st, best_score st)),
            results = results st @
              map (\<lambda>(name, m). (name, candidate_result lib X_train X_test y_train yt m)) cands,
            calls = calls st @
              concat (map (\<lambda>(name, m). [Fit name X_train y_train, Score name X_test yt,
                                          Predict name X_test]) cands)\<rparr>"
  using assms
proof (induction cands arbitrary: st)
  case Nil
  then show ?case by simp
next
  case (Cons c cands)
  obtain name m where c: "c = (name, m)" by (cases c)
  let ?r = "candidate_result lib X_train X_test y_train yt m"
  let ?st1 = "st\<lparr>results := results st @ [(name, ?r)],
                  calls := calls st @ [Fit name X_train y_train, Score name X_test yt,
                                       Predict name X_test]\<rparr>"
  let ?st2 = "if py_gt (score ?r) (best_score st)
              then ?st1\<lparr>best_score := score ?r, best_model := Some (model ?r)\<rparr> else ?st1"
  have fresh: "name \<notin> set (map fst (results st))" using Cons.prems(2) c by simp
  have step: "candidate_loop lib X_train X_test y_train yt (c # cands) st =
                candidate_loop lib X_train X_test y_train yt cands ?st2"
    using fresh unfolding c
    by (simp add: Let_def dict_set_def candidate_result_def)
  have d: "distinct (map fst cands)" using Cons.prems(1) by simp
  have f2: "\<forall>n\<in>set (map fst cands). n \<notin> set (map fst (results ?st2))"
    using Cons.prems c by auto
  show ?case
    unfolding step Cons.IH[OF d f2] unfolding c by simp
qed

lemma models_names: "distinct (map fst models)"
  by (simp add: models_def)

lemma train_models_run:
  "train_models lib X y =
     (fst (select_best (stored lib X y) (None, NInf)),
      stored lib X y,
      (case lib_split lib X y (1 / 5) 42 of
         (X_train, X_test, y_train, yt) \<Rightarrow>
           Split X y (1 / 5) 42 #
           concat (map (\<lambda>(name, m). [Fit name X_train y_train, Score name X_test yt,
                                       Predict name X_test]) models)))"
proof -
  obtain X_train X_test y_train yt where sp: "lib_split lib X y (1 / 5) 42 = (X_train, X_test, y_train, yt)"
    by (cases "lib_split lib X y (1 / 5) 42") auto
  let ?st = "\<lparr>best_model = None, best_score = NInf, results = [],
              calls = [Split X y (1 / 5) 42]\<rparr> :: 'a training_state"
  have fresh: "\<forall>n\<in>set (map fst models). n \<notin> set (map fst (results ?st))" by simp
  show ?thesis
    unfolding train_models_def stored_def sp
    by (simp add: candidate_loop_run[OF models_names fresh] Let_def)
qed

lemma py_gt_irrefl: "\<not> py_gt x x"
  by (cases x) auto

lemma py_gt_trans: "py_gt a b \<Longrightarrow> py_gt b c \<Longrightarrow> py_gt a c"
  by (cases a; cases b; cases c) auto

lemma py_gt_not_above: "\<not> py_gt a b \<Longrightarrow> py_gt c b \<Longrightarrow> \<not> py_gt a c"
  by (cases a; cases b; cases c) auto

lemma py_gt_below: "\<not> py_gt a b \<Longrightarrow> py_gt c b \<Longrightarrow> py_gt c a \<or> a = NaN"
  by (cases a; cases b; cases c) auto

lemma not_above_NInf: "\<not> py_gt a NInf \<longleftrightarrow> a = NaN \<or> a = NInf"
  by (cases a) auto

lemma select_best_snoc:
  "select_best (rs @ [(name, r)]) b =
     (if py_gt (score r) (snd (select_best rs b)) then (Some (model r), score r)
      else select_best rs b)"
  by (induction rs b rule: select_best.induct) auto

lemma select_best_char:
  "case select_best rs (None, NInf) of (bm, bs) \<Rightarrow>
     (bm = None \<and> bs = NInf \<and> (\<forall>r\<in>set rs. \<not> py_gt (score (snd r)) NInf)) \<or>
     (\<exists>i<length rs. bm = Some (model (snd (rs ! i))) \<and> bs = score (snd (rs ! i)) \<and>
        py_gt bs NInf \<and>
        (\<forall>j<length rs. \<not> py_gt (score (snd (rs ! j))) bs) \<and>
        (\<forall>j<i. py_gt bs (score (snd (rs ! j))) \<or> score (snd (rs ! j)) = NaN))"
proof (induction rs rule: rev_induct)
  case Nil
  then show ?case by simp
next
  case (snoc x rs)
  obtain name r where x: "x = (name, r)" by (cases x)
  obtain bm bs where b: "select_best rs (None, NInf) = (bm, bs)"
    by (cases "select_best rs (None, NInf)")
  let ?n = "length rs"
  have nth_old: "(rs @ [x]) ! j = rs ! j" if "j < ?n" for j using that by (simp add: nth_append)
  have nth_new: "(rs @ [x]) ! ?n = x" by simp
  from snoc.IH b consider
      (none) "bm = None" "bs = NInf" "\<forall>r\<in>set rs. \<not> py_gt (score (snd r)) NInf"
    | (some) i where "i < ?n" "bm = Some (model (snd (rs ! i)))" "bs = score (snd (rs ! i))"
        "py_gt bs NInf" "\<forall>j<?n. \<not> py_gt (score (snd (rs ! j))) bs"
        "\<forall>j<i. py_gt bs (score (snd (rs ! j))) \<or> score (snd (rs ! j)) = NaN"
    by auto
  then show ?case
  proof cases
    case none
    show ?thesis
    proof (cases "py_gt (score r) NInf")
      case True
      have prev: "\<forall>j<?n. score (snd (rs ! j)) = NaN \<or> score (snd (rs ! j)) = NInf"
        using none(3) by (simp add: not_above_NInf)
      have a: "\<forall>j<length (rs @ [x]). \<not> py_gt (score (snd ((rs @ [x]) ! j))) (score r)"
      proof (intro allI impI)
        fix j assume "j < length (rs @ [x])"
        then consider "j < ?n" | "j = ?n" by fastforce
        then show "\<not> py_gt (score (snd ((rs @ [x]) ! j))) (score r)"
        proof cases
          case 1
          then show ?thesis using prev nth_old[OF 1] True
            by (metis py_gt.simps(1) py_gt_irrefl py_gt_trans)
        next
          case 2
          then show ?thesis using x by (simp add: py_gt_irrefl)
        qed
      qed
      have c: "\<forall>j<?n. py_gt (score r) (score (snd ((rs @ [x]) ! j))) \<or>
                       score (snd ((rs @ [x]) ! j)) = NaN"
        using prev True by (auto simp: nth_append)
      have "select_best (rs @ [x]) (None, NInf) = (Some (model r), score r)"
        using True none b unfolding x by (simp add: select_best_snoc)
      moreover have "length rs < length (rs @ [x])" by simp
      ultimately show ?thesis using a c True x nth_new by (auto intro!: exI[of _ ?n])
    next
      case False
      have "select_best (rs @ [x]) (None, NInf) = (None, NInf)"
        using False none b unfolding x by (simp add: select_best_snoc)
      then show ?thesis using none(3) False x by auto
    qed
  next
    case some
    show ?thesis
    proof (cases "py_gt (score r) bs")
      case True
      have a: "\<forall>j<length (rs @ [x]). \<not> py_gt (score (snd ((rs @ [x]) ! j))) (score r)"
      proof (intro allI impI)
        fix j assume "j < length (rs @ [x])"
        then consider "j < ?n" | "j = ?n" by fastforce
        then show "\<not> py_gt (score (snd ((rs @ [x]) ! j))) (score r)"
        proof cases
          case 1
          then show ?thesis using some(5) nth_old[OF 1] True py_gt_not_above by metis
        next
          case 2
          then show ?thesis using x by (simp add: py_gt_irrefl)
        qed
      qed
      have c: "\<forall>j<?n. py_gt (score r) (score (snd ((rs @ [x]) ! j))) \<or>
                       score (snd ((rs @ [x]) ! j)) = NaN"
      proof (intro allI impI)
        fix j assume j: "j < ?n"
        then have "\<not> py_gt (score (snd (rs ! j))) bs" using some(5) by simp
        then show "py_gt (score r) (score (snd ((rs @ [x]) ! j))) \<or>
                   score (snd ((rs @ [x]) ! j)) = NaN"
          using py_gt_below[OF _ True] nth_old[OF j] by metis
      qed
      have above: "py_gt (score r) NInf" using True some(4) by (rule py_gt_trans)
      have "select_best (rs @ [x]) (None, NInf) = (Some (model r), score r)"
        using True b unfolding x by (simp add: select_best_snoc)
      then show ?thesis using a c above x nth_new by (auto intro!: exI[of _ ?n])
    next
      case False
      have sb: "select_best (rs @ [x]) (None, NInf) = (bm, bs)"
        using False b unfolding x by (simp add: select_best_snoc)
      have a: "\<forall>j<length (rs @ [x]). \<not> py_gt (score (snd ((rs @ [x]) ! j))) bs"
      proof (intro allI impI)
        fix j assume "j < length (rs @ [x])"
        then consider "j < ?n" | "j = ?n" by fastforce
        then show "\<not> py_gt (score (snd ((rs @ [x]) ! j))) bs"
        proof cases
          case 1
          then show ?thesis using some(5) nth_old[OF 1] by simp
        next
          case 2
          then show ?thesis using x False by simp
        qed
      qed
      have i': "i < length (rs @ [x])" using some(1) by simp
      have old_i: "(rs @ [x]) ! i = rs ! i" using some(1) by (rule nth_old)
      have c: "\<forall>j<i. py_gt bs (score (snd ((rs @ [x]) ! j))) \<or> score (snd ((rs @ [x]) ! j)) = NaN"
        using some(6) some(1) by (auto simp: nth_append)
      show ?thesis
        unfolding sb using i' old_i some(2,3,4) a c by (auto intro!: exI[of _ i])
    qed
  qed
qed

lemma stored_length: "length (stored lib X y) = 4"
  by (simp add: stored_def models_def split: prod.splits)

lemma stored_names:
  "map fst (stored lib X y) = [''Random Forest'', ''Gradient Boosting'', ''XGBoost'', ''Neural Network'']"
  by (simp add: stored_def models_def split: prod.splits)

lemma first_best_unique:
  assumes "first_best ss i" "first_best ss k"
  shows "i = k"
proof (rule ccontr)
  assume "i \<noteq> k"
  then consider "i < k" | "k < i" by linarith
  then show False
  proof cases
    case 1
    have "py_gt (ss ! k) (ss ! i) \<or> ss ! i = NaN"
      using assms(2) 1 by (simp add: first_best_def list_all_iff)
    moreover have "ss ! i \<noteq> NaN" using assms(1) by (auto simp: first_best_def)
    moreover have "\<not> py_gt (ss ! k) (ss ! i)"
      using assms by (simp add: first_best_def list_all_iff)
    ultimately show False by simp
  next
    case 2
    have "py_gt (ss ! i) (ss ! k) \<or> ss ! k = NaN"
      using assms(1) 2 by (simp add: first_best_def list_all_iff)
    moreover have "ss ! k \<noteq> NaN" using assms(2) by (auto simp: first_best_def)
    moreover have "\<not> py_gt (ss ! i) (ss ! k)"
      using assms by (simp add: first_best_def list_all_iff)
    ultimately show False by simp
  qed
qed

lemma select_best_first_best:
  fixes rs :: "(string \<times> 'm model_result) list"
  defines "ss \<equiv> map (\<lambda>x. score (snd x)) rs"
  shows "if list_all (\<lambda>s. s = NaN \<or> s = NInf) ss
         then fst (select_best rs (None, NInf)) = None
         else \<exists>i. first_best ss i \<and> fst (select_best rs (None, NInf)) = Some (model (snd (rs ! i)))"
proof -
  obtain bm bs where b: "select_best rs (None, NInf) = (bm, bs)"
    by (cases "select_best rs (None, NInf)")
  from select_best_char[of rs] b consider
      (none) "bm = None" "\<forall>r\<in>set rs. \<not> py_gt (score (snd r)) NInf"
    | (some) i where "i < length rs" "bm = Some (model (snd (rs ! i)))" "bs = score (snd (rs ! i))"
        "py_gt bs NInf" "\<forall>j<length rs. \<not> py_gt (score (snd (rs ! j))) bs"
        "\<forall>j<i. py_gt bs (score (snd (rs ! j))) \<or> score (snd (rs ! j)) = NaN"
    by auto
  then show ?thesis
  proof cases
    case none
    then have "list_all (\<lambda>s. s = NaN \<or> s = NInf) ss"
      by (simp add: ss_def list_all_iff not_above_NInf)
    then show ?thesis using none(1) b by simp
  next
    case some
    have "ss ! i \<in> set ss" using some(1) by (simp add: ss_def)
    moreover have "ss ! i \<noteq> NaN \<and> ss ! i \<noteq> NInf"
      using some(1,3,4) by (auto simp: ss_def)
    ultimately have no: "\<not> list_all (\<lambda>s. s = NaN \<or> s = NInf) ss"
      by (auto simp: list_all_iff)
    have "first_best ss i"
      using some by (simp add: first_best_def ss_def list_all_iff)
    then show ?thesis using no some(2) b by auto
  qed
qed

text \<open>
  C5, as stated, fails when every held-out score is NaN, which is what \<open>r2_score\<close>
  returns on a held-out partition of one row: no score is greater than minus infinity,
  and \<open>train_models\<close> returns None as the best model, not a candidate.
\<close>

theorem train_models_returns_no_best_on_nan_scores:
  "fst (train_models nan_lib two_row_X two_row_y) = None \<and>
   map (\<lambda>x. score (snd x)) (fst (snd (train_models nan_lib two_row_X two_row_y))) =
     [NaN, NaN, NaN, NaN]"
  by (simp add: train_models_run stored_def models_def candidate_result_def nan_lib_def
        halves_def split: prod.splits)

lemma first_best_of_stored:
  "if list_all (\<lambda>s. s = NaN \<or> s = NInf) (map (\<lambda>x. score (snd x)) (stored lib X y))
   then fst (train_models lib X y) = None
   else \<exists>!i. first_best (map (\<lambda>x. score (snd x)) (stored lib X y)) i \<and>
             fst (train_models lib X y) = Some (model (snd (stored lib X y ! i)))"
proof -
  have b: "fst (train_models lib X y) = fst (select_best (stored lib X y) (None, NInf))"
    by (simp add: train_models_run)
  show ?thesis
    unfolding b using select_best_first_best[of "stored lib X y"] first_best_unique
    by auto
qed

lemma stored_scores:
  "lib_split lib X y (1 / 5) 42 = (X_train, X_test, y_train, held_out) \<Longrightarrow>
   map (\<lambda>x. score (snd x)) (stored lib X y) =
     map (\<lambda>(name, m). lib_score lib (lib_fit lib m X_train y_train) X_test held_out) models"
  by (simp add: stored_def candidate_result_def comp_def case_prod_unfold)

lemma stored_model:
  "lib_split lib X y (1 / 5) 42 = (X_train, X_test, y_train, held_out) \<Longrightarrow> i < length models \<Longrightarrow>
   model (snd (stored lib X y ! i)) = lib_fit lib (snd (models ! i)) X_train y_train"
  by (simp add: stored_def candidate_result_def case_prod_unfold)

text \<open>
  C5, amended. Let the scores be the held-out scores of the four candidates fitted on the
  training partition, in the declared order Random Forest, Gradient Boosting, XGBoost,
  Neural Network. When some score is a number greater than minus infinity,
  \<open>train_models\<close> returns as best the fitted model of the one candidate that is the
  first best: no score is greater than its score, and every earlier candidate's score is
  smaller or NaN (ties go to the first in the order; with scores 0.5, 0.7, 0.7, 0.3 the
  second candidate wins). When every score is NaN or minus infinity it returns None.
\<close>

theorem train_models_returns_first_best:
  "case lib_split lib X y (1 / 5) 42 of
     (X_train, X_test, y_train, held_out) \<Rightarrow>
       (if list_all (\<lambda>s. s = NaN \<or> s = NInf)
             (map (\<lambda>(name, m). lib_score lib (lib_fit lib m X_train y_train) X_test held_out)
                models)
        then fst (train_models lib X y) = None
        else \<exists>!i. first_best
                    (map (\<lambda>(name, m). lib_score lib (lib_fit lib m X_train y_train) X_test held_out)
                       models) i \<and>
                  fst (train_models lib X y) = Some (lib_fit lib (snd (models ! i)) X_train y_train))"
proof -
  obtain X_train X_test y_train held_out
    where sp: "lib_split lib X y (1 / 5) 42 = (X_train, X_test, y_train, held_out)"
    by (cases "lib_split lib X y (1 / 5) 42") auto
  let ?ss = "map (\<lambda>(name, m). lib_score lib (lib_fit lib m X_train y_train) X_test held_out) models"
  have len: "length ?ss = length models" by simp
  have fb: "i < length models" if "first_best ?ss i" for i
    using that len by (simp add: first_best_def)
  have "if list_all (\<lambda>s. s = NaN \<or> s = NInf) ?ss
        then fst (train_models lib X y) = None
        else \<exists>!i. first_best ?ss i \<and>
                  fst (train_models lib X y) = Some (lib_fit lib (snd (models ! i)) X_train y_train)"
  proof (cases "list_all (\<lambda>s. s = NaN \<or> s = NInf) ?ss")
    case True
    then show ?thesis using first_best_of_stored[of lib X y] unfolding stored_scores[OF sp] by simp
  next
    case False
    then obtain i where i: "first_best ?ss i"
      "fst (train_models lib X y) = Some (model (snd (stored lib X y ! i)))"
      using first_best_of_stored[of lib X y] unfolding stored_scores[OF sp] by auto
    have "fst (train_models lib X y) = Some (lib_fit lib (snd (models ! i)) X_train y_train)"
      using i(2) stored_model[OF sp fb[OF i(1)]] by simp
    then show ?thesis using False i(1) first_best_unique by auto
  qed
  then show ?thesis unfolding sp by simp
qed

theorem train_models_returns_first_best_witness:
  "map (\<lambda>(name, m). lib_score example_lib (lib_fit example_lib m [] []) [] []) models =
     [Fin (1 / 2), Fin (7 / 10), Fin (7 / 10), Fin (3 / 10)] \<and>
   first_best [Fin (1 / 2), Fin (7 / 10), Fin (7 / 10), Fin (3 / 10)] 1 \<and>
   fst (train_models example_lib two_row_X two_row_y) = Some (GradientBoostingRegressor 100 42) \<and>
   models ! 1 = (''Gradient Boosting'', GradientBoostingRegressor 100 42)"
  using train_models_returns_first_best[of example_lib two_row_X two_row_y]
  by (simp add: train_models_run stored_def models_def candidate_result_def example_lib_def
        example_scores_def halves_def two_row_X_def two_row_y_def nrows_def first_best_def
        upt_rec split: prod.splits)

text \<open>
  C6. In one call of \<open>train_models\<close> the 80/20 split is made exactly once, with test
  size 0.2 and seed 42, before the loop: the library-call log is that one split followed,
  candidate by candidate, by a fit on the training partition of that split and a score
  and a prediction on its held-out partition. Every candidate's stored result holds the
  same held-out targets, and its score and predictions are those of its model fitted on
  the same training partition, taken on the same held-out partition.
\<close>

theorem train_models_uses_one_split:
  "case lib_split lib X y (1 / 5) 42 of
     (X_train, X_test, y_train, held_out) \<Rightarrow>
       fst (snd (train_models lib X y)) =
         map (\<lambda>(name, m).
                (name,
                 \<lparr>model = lib_fit lib m X_train y_train,
                  score = lib_score lib (lib_fit lib m X_train y_train) X_test held_out,
                  predictions = lib_predict lib (lib_fit lib m X_train y_train) X_test,
                  y_test = held_out\<rparr>)) models \<and>
       snd (snd (train_models lib X y)) =
         Split X y (1 / 5) 42 #
         concat (map (\<lambda>(name, m). [Fit name X_train y_train, Score name X_test held_out,
                                     Predict name X_test]) models)"
  by (simp add: train_models_run stored_def candidate_result_def split: prod.splits)

theorem train_models_uses_one_split_witness:
  "map (\<lambda>x. y_test (snd x)) (fst (snd (train_models example_lib two_row_X two_row_y))) =
     [[Num 20], [Num 20], [Num 20], [Num 20]] \<and>
   filter (\<lambda>c. case c of Split X y t s \<Rightarrow> True | _ \<Rightarrow> False)
     (snd (snd (train_models example_lib two_row_X two_row_y))) =
     [Split two_row_X two_row_y (1 / 5) 42]"
  using train_models_uses_one_split[of example_lib two_row_X two_row_y]
  by (simp add: example_lib_def halves_def two_row_X_def two_row_y_def models_def
        split: prod.splits)

lemma max_from_unchanged:
  "\<not> list_ex (\<lambda>x. py_gt (key x) (key cur)) xs \<Longrightarrow> max_from key cur xs = cur"
  by (induction xs) auto

lemma max_from_in: "max_from key cur xs \<in> set (cur # xs)"
  by (induction xs arbitrary: cur) (auto split: if_splits)

lemma select_best_sync:
  "bs = score (snd cur) \<Longrightarrow>
   select_best rs (bm, bs) =
     (if list_ex (\<lambda>x. py_gt (score (snd x)) bs) rs
      then Some (model (snd (max_from (\<lambda>x. score (snd x)) cur rs))) else bm,
      score (snd (max_from (\<lambda>x. score (snd x)) cur rs)))"
proof (induction rs arbitrary: bm bs cur)
  case Nil
  then show ?case by simp
next
  case (Cons x rs)
  obtain name r where x: "x = (name, r)" by (cases x)
  show ?case
  proof (cases "py_gt (score r) bs")
    case True
    have "select_best (x # rs) (bm, bs) = select_best rs (Some (model r), score r)"
      using True x by simp
    also have "\<dots> = (if list_ex (\<lambda>y. py_gt (score (snd y)) (score r)) rs
                        then Some (model (snd (max_from (\<lambda>x. score (snd x)) x rs)))
                        else Some (model r),
                        score (snd (max_from (\<lambda>x. score (snd x)) x rs)))"
      using Cons.IH[of "score r" x "Some (model r)"] x by simp
    also have "\<dots> = (Some (model (snd (max_from (\<lambda>x. score (snd x)) x rs))),
                        score (snd (max_from (\<lambda>x. score (snd x)) x rs)))"
      using max_from_unchanged[of "\<lambda>x. score (snd x)" x rs] x by auto
    finally show ?thesis using True x Cons.prems by simp
  next
    case False
    have "select_best (x # rs) (bm, bs) = select_best rs (bm, bs)" using False x by simp
    then show ?thesis using Cons.IH[OF Cons.prems, of bm] False x Cons.prems by simp
  qed
qed

lemma best_result_max:
  assumes "distinct (map fst (c # rs))"
  shows "best_result (c # rs) = Inr (snd (max_from (\<lambda>x. score (snd x)) c rs))"
proof -
  obtain name r where m: "max_from (\<lambda>x. score (snd x)) c rs = (name, r)"
    by (cases "max_from (\<lambda>x. score (snd x)) c rs")
  have "(name, r) \<in> set (c # rs)" using max_from_in[of "\<lambda>x. score (snd x)" c rs] m by simp
  then have "map_of (c # rs) name = Some r" using assms by (rule map_of_is_SomeI[rotated]) 
  then show ?thesis using m by (simp add: best_result_def py_max_def)
qed

lemma selections_agree:
  assumes d: "distinct (map fst (c # rs))"
    and first: "score (snd c) \<noteq> NaN"
    and some: "list_ex (\<lambda>x. py_gt (score (snd x)) NInf) (c # rs)"
  shows "\<exists>r. best_result (c # rs) = Inr r \<and> fst (select_best (c # rs) (None, NInf)) = Some (model r)"
proof -
  obtain name r0 where c: "c = (name, r0)" by (cases c)
  let ?m = "max_from (\<lambda>x. score (snd x)) c rs"
  have "fst (select_best (c # rs) (None, NInf)) = Some (model (snd ?m))"
  proof (cases "py_gt (score r0) NInf")
    case True
    have "select_best (c # rs) (None, NInf) = select_best rs (Some (model r0), score r0)"
      using True c by simp
    also have "\<dots> = (if list_ex (\<lambda>x. py_gt (score (snd x)) (score r0)) rs
                        then Some (model (snd ?m)) else Some (model r0), score (snd ?m))"
      using select_best_sync[of "score r0" c rs "Some (model r0)"] c by simp
    finally show ?thesis using max_from_unchanged[of "\<lambda>x. score (snd x)" c rs] c by auto
  next
    case False
    then have s0: "score r0 = NInf" using first c by (simp add: not_above_NInf)
    have later: "list_ex (\<lambda>x. py_gt (score (snd x)) NInf) rs" using some False c by simp
    have "select_best (c # rs) (None, NInf) = select_best rs (None, NInf)"
      using False c by simp
    then show ?thesis using select_best_sync[of NInf c rs None] s0 c later by simp
  qed
  then show ?thesis using best_result_max[OF d] by simp
qed

text \<open>
  C10, as stated, fails when every held-out score is NaN (a held-out partition of one
  row): \<open>train_models\<close> returns None as best model, while \<open>main\<close> charts the result of
  Random Forest, the first entry, which \<open>max\<close> keeps because no score compares greater.
\<close>

theorem chart_and_best_model_disagree_on_nan_scores:
  "fst (train_models nan_lib two_row_X two_row_y) = None \<and>
   best_result (fst (snd (train_models nan_lib two_row_X two_row_y))) =
     Inr \<lparr>model = RandomForestRegressor 100 42, score = NaN,
          predictions = [Num 0], y_test = [Num 20]\<rparr>"
  by (simp add: train_models_run stored_def models_def candidate_result_def nan_lib_def
        halves_def two_row_X_def two_row_y_def nrows_def best_result_def py_max_def
        split: prod.splits)

text \<open>
  C10, amended. Whenever the score of the first candidate (Random Forest) is not NaN and
  some candidate's score is greater than minus infinity, the result that \<open>main\<close> charts
  is the result of the model that \<open>train_models\<close> returns as best.
\<close>

theorem chart_shows_best_model:
  assumes "case fst (snd (train_models lib X y)) of [] \<Rightarrow> False | c # rs \<Rightarrow> score (snd c) \<noteq> NaN"
    and "list_ex (\<lambda>x. py_gt (score (snd x)) NInf) (fst (snd (train_models lib X y)))"
  shows "\<exists>r. best_result (fst (snd (train_models lib X y))) = Inr r \<and>
             fst (train_models lib X y) = Some (model r)"
proof -
  have r: "fst (snd (train_models lib X y)) = stored lib X y"
    and b: "fst (train_models lib X y) = fst (select_best (stored lib X y) (None, NInf))"
    by (simp_all add: train_models_run)
  obtain c rs where crs: "stored lib X y = c # rs"
    using stored_length[of lib X y] by (cases "stored lib X y") auto
  have d: "distinct (map fst (c # rs))"
    using stored_names[of lib X y] unfolding crs by simp
  show ?thesis
    using assms selections_agree[OF d] unfolding r b crs by simp
qed

theorem chart_shows_best_model_witness:
  "best_result (fst (snd (train_models example_lib two_row_X two_row_y))) =
     Inr \<lparr>model = GradientBoostingRegressor 100 42, score = Fin (7 / 10),
          predictions = [Num 0], y_test = [Num 20]\<rparr> \<and>
   fst (train_models example_lib two_row_X two_row_y) = Some (GradientBoostingRegressor 100 42)"
  using chart_shows_best_model[of example_lib two_row_X two_row_y]
  by (simp add: train_models_run stored_def models_def candidate_result_def example_lib_def
        example_scores_def halves_def two_row_X_def two_row_y_def nrows_def best_result_def
        py_max_def split: prod.splits)

section \<open>Properties of the analysis in main\<close>

lemma bind_err_Inr [simp]: "bind_err (Inr a) f = f a"
  by (simp add: bind_err_def)

lemma bind_err_Inl [simp]: "bind_err (Inl e) f = Inl e"
  by (simp add: bind_err_def)

lemma map_of_head: "map_of (head k df) n = map_option (take k) (map_of df n)"
  by (induction df) (auto simp: head_def)

lemma select_columns_present:
  "list_all (\<lambda>n. map_of df n \<noteq> None) names \<Longrightarrow> \<exists>r. select_columns df names = Inr r"
  by (induction names) auto

lemma field_column:
  assumes "game_log_ok df" "f \<in> set (features @ [target])"
  shows "\<exists>c. map_of df f = Some c \<and> list_all is_num c"
  using assms unfolding game_log_ok_def list_all_iff by (auto split: option.splits)

lemma col_sum_append:
  "map_of df f = Some c \<Longrightarrow> col_sum (df @ extra) f = col_sum df f"
  by (simp add: col_sum_def get_column_def map_of_append_left)

lemma col_mean_append:
  "map_of df f = Some c \<Longrightarrow> col_mean (df @ extra) f = col_mean df f"
  by (simp add: col_mean_def get_column_def map_of_append_left)

lemma col_mean_field:
  assumes "game_log_ok df" "f \<in> set (features @ [target])"
  shows "\<exists>m. col_mean (df @ extra) f = Inr m"
proof -
  obtain c where c: "map_of df f = Some c" "list_all is_num c"
    using field_column[OF assms] by blast
  show ?thesis
    using c numeric_no_text[OF c(2)]
    by (simp add: col_mean_append[OF c(1)] col_mean_def get_column_def)
qed

lemma col_sum_field:
  assumes "game_log_ok df" "f \<in> set (features @ [target])"
  shows "col_sum (df @ extra) f = col_sum df f \<and> (\<exists>s. col_sum df f = Inr s)"
proof -
  obtain c where c: "map_of df f = Some c" "list_all is_num c"
    using field_column[OF assms] by blast
  show ?thesis
    using c numeric_no_text[OF c(2)]
    by (simp add: col_sum_append[OF c(1)] col_sum_def get_column_def)
qed

lemma fields_listed:
  "''MIN'' \<in> set (features @ [target])" "''FGM'' \<in> set (features @ [target])"
  "''FGA'' \<in> set (features @ [target])" "''STL'' \<in> set (features @ [target])"
  "''BLK'' \<in> set (features @ [target])" "''PTS'' \<in> set (features @ [target])"
  "''AST'' \<in> set (features @ [target])" "''REB'' \<in> set (features @ [target])"
  "''FG_PCT'' \<in> set (features @ [target])" "''FG3_PCT'' \<in> set (features @ [target])"
  by (simp_all add: features_def target_def)

lemma team_stats_ok:
  assumes "game_log_ok df"
  shows "\<exists>ts. team_stats (df @ extra) = Inr ts"
proof -
  obtain a b c d e where
    "col_mean (df @ extra) ''PTS'' = Inr a" "col_mean (df @ extra) ''AST'' = Inr b"
    "col_mean (df @ extra) ''REB'' = Inr c" "col_mean (df @ extra) ''FG_PCT'' = Inr d"
    "col_mean (df @ extra) ''FG3_PCT'' = Inr e"
    using col_mean_field[OF assms fields_listed(6), of extra]
      col_mean_field[OF assms fields_listed(7), of extra]
      col_mean_field[OF assms fields_listed(8), of extra]
      col_mean_field[OF assms fields_listed(9), of extra]
      col_mean_field[OF assms fields_listed(10), of extra]
    by blast
  then show ?thesis by (simp add: team_stats_def)
qed

lemma impact_metrics_ok:
  assumes ok: "game_log_ok df"
    and sums: "col_sum df ''FGM'' = Inr fgm" "col_sum df ''FGA'' = Inr fga"
      "col_sum df ''PTS'' = Inr pts" "col_sum df ''MIN'' = Inr minutes"
  shows "\<exists>usage defence.
           impact_metrics (df @ extra) =
             Inr [(''Usage Rate'', usage),
                  (''Offensive Rating'', np_scale (np_div fgm fga) 100),
                  (''Defensive Impact'', defence),
                  (''Efficiency'', np_scale (np_div pts minutes) 48)] \<and>
           impact_metrics1 (df @ extra) =
             Inr [(''Usage Rate'', usage),
                  (''Offensive Rating'', if fga \<noteq> 0 then np_scale (np_div fgm fga) 100 else Fin 0),
                  (''Defensive Impact'', defence),
                  (''Efficiency'', if minutes \<noteq> 0 then np_scale (np_div pts minutes) 48 else Fin 0)]"
proof -
  obtain u s b where means:
    "col_mean (df @ extra) ''MIN'' = Inr u" "col_mean (df @ extra) ''STL'' = Inr s"
    "col_mean (df @ extra) ''BLK'' = Inr b"
    using col_mean_field[OF ok fields_listed(1), of extra]
      col_mean_field[OF ok fields_listed(4), of extra]
      col_mean_field[OF ok fields_listed(5), of extra]
    by blast
  have s: "col_sum (df @ extra) ''FGM'' = Inr fgm" "col_sum (df @ extra) ''FGA'' = Inr fga"
    "col_sum (df @ extra) ''PTS'' = Inr pts" "col_sum (df @ extra) ''MIN'' = Inr minutes"
    using col_sum_field[OF ok fields_listed(2), of extra] col_sum_field[OF ok fields_listed(3), of extra]
      col_sum_field[OF ok fields_listed(6), of extra] col_sum_field[OF ok fields_listed(1), of extra]
      sums by simp_all
  show ?thesis
    using means s by (simp add: impact_metrics_def impact_metrics1_def)
qed

lemma best_result_stored: "\<exists>r. best_result (stored lib X y) = Inr r"
proof -
  obtain c rs where crs: "stored lib X y = c # rs"
    using stored_length[of lib X y] by (cases "stored lib X y") auto
  have "distinct (map fst (c # rs))" using stored_names[of lib X y] unfolding crs by simp
  then show ?thesis unfolding crs using best_result_max by blast
qed

lemma processed_ok:
  assumes ok: "game_log_ok df" and mid: "mid = ''_rolling_'' \<or> mid = ''_roll_''"
  shows "\<not> df_empty df \<and> \<not> df_empty (df @ rolling_columns mid df) \<and>
         snd (preprocess_with mid (Some df)) = Inr (Some (df @ rolling_columns mid df))"
proof -
  have rows: "0 < nrows df" using ok by (simp add: game_log_ok_def)
  then have ne: "df \<noteq> []" "\<not> df_empty df" by (auto simp: df_empty_def nrows_def)
  have "\<not> df_empty (df @ rolling_columns mid df)"
    using ne(1) rows by (simp add: df_empty_def nrows_append)
  then show ?thesis using ne(2) preprocess_ok[OF ok mid] by simp
qed

lemma recent_games_ok:
  assumes ok: "game_log_ok df"
    and gd: "map_of df ''GAME_DATE'' \<noteq> None" and mu: "map_of df ''MATCHUP'' \<noteq> None"
  shows "\<exists>r. select_columns (head 5 (df @ extra))
               [''GAME_DATE'', ''MATCHUP'', ''MIN'', ''PTS'', ''AST'', ''REB''] = Inr r"
proof -
  have present: "map_of (head 5 (df @ extra)) n \<noteq> None" if "map_of df n \<noteq> None" for n
    using that by (auto simp: map_of_head map_of_append_left)
  have "map_of df ''MIN'' \<noteq> None" "map_of df ''PTS'' \<noteq> None" "map_of df ''AST'' \<noteq> None"
    "map_of df ''REB'' \<noteq> None"
    using field_column[OF ok fields_listed(1)] field_column[OF ok fields_listed(6)]
      field_column[OF ok fields_listed(7)] field_column[OF ok fields_listed(8)] by auto
  then show ?thesis
    using gd mu present by (intro select_columns_present) simp
qed

lemma main_analysis_ok:
  assumes ok: "game_log_ok df"
    and gd: "map_of df ''GAME_DATE'' \<noteq> None" and mu: "map_of df ''MATCHUP'' \<noteq> None"
    and pts: "map_of df ''PTS'' = Some y"
    and sums: "col_sum df ''FGM'' = Inr fgm" "col_sum df ''FGA'' = Inr fga"
      "col_sum df ''PTS'' = Inr p" "col_sum df ''MIN'' = Inr minutes"
  shows "\<exists>a X. main_analysis lib (Some df) = Inr (Some a) \<and>
           model_inputs (df @ rolling_columns ''_rolling_'' df) = Inr (X, y) \<and>
           model_X a = X \<and> model_y a = y \<and>
           trained_best a = fst (train_models lib X y) \<and>
           model_results a = fst (snd (train_models lib X y)) \<and>
           library_calls a = snd (snd (train_models lib X y)) \<and>
           best_result (fst (snd (train_models lib X y))) = Inr (charted a) \<and>
           map_of (impact a) ''Offensive Rating'' = Some (np_scale (np_div fgm fga) 100) \<and>
           map_of (impact a) ''Efficiency'' = Some (np_scale (np_div p minutes) 48)"
proof -
  let ?p = "df @ rolling_columns ''_rolling_'' df"
  have pr: "\<not> df_empty df" "\<not> df_empty ?p" "snd (preprocess_game_log (Some df)) = Inr (Some ?p)"
    using processed_ok[OF ok, of "''_rolling_''"] by (simp_all add: preprocess_game_log_def)
  obtain recent where recent: "select_columns (head 5 ?p)
      [''GAME_DATE'', ''MATCHUP'', ''MIN'', ''PTS'', ''AST'', ''REB''] = Inr recent"
    using recent_games_ok[OF ok gd mu] by blast
  have yy: "get_column ?p ''PTS'' = Inr y"
    using map_of_append_left[OF pts] by (simp add: get_column_def)
  obtain X where X: "model_inputs ?p = Inr (X, y)"
    using yy by (simp add: model_inputs_def Let_def)
  obtain ts where ts: "team_stats ?p = Inr ts" using team_stats_ok[OF ok] by blast
  obtain usage defence where im: "impact_metrics ?p =
       Inr [(''Usage Rate'', usage), (''Offensive Rating'', np_scale (np_div fgm fga) 100),
            (''Defensive Impact'', defence), (''Efficiency'', np_scale (np_div p minutes) 48)]"
    using impact_metrics_ok[OF ok sums] by blast
  obtain chart where chart: "best_result (fst (snd (train_models lib X y))) = Inr chart"
    using best_result_stored[of lib X y] by (auto simp: train_models_run)
  have "main_analysis lib (Some df) =
          Inr (Some \<lparr>recent_games = recent, model_X = X, model_y = y,
                     trained_best = fst (train_models lib X y),
                     model_results = fst (snd (train_models lib X y)),
                     library_calls = snd (snd (train_models lib X y)),
                     team_statistics = ts,
                     impact = [(''Usage Rate'', usage),
                               (''Offensive Rating'', np_scale (np_div fgm fga) 100),
                               (''Defensive Impact'', defence),
                               (''Efficiency'', np_scale (np_div p minutes) 48)],
                     charted = chart\<rparr>)"
    using pr by (simp add: main_analysis_def analyze_processed_def recent X ts im chart del: select_columns.simps)
  then show ?thesis using X chart by auto
qed

lemma main1_analysis_ok:
  assumes ok: "game_log_ok df"
    and gd: "map_of df ''GAME_DATE'' \<noteq> None" and mu: "map_of df ''MATCHUP'' \<noteq> None"
    and sums: "col_sum df ''FGM'' = Inr fgm" "col_sum df ''FGA'' = Inr fga"
      "col_sum df ''PTS'' = Inr p" "col_sum df ''MIN'' = Inr minutes"
  shows "\<exists>a. main1_analysis (Some df) = Inr (Some a) \<and>
           map_of (impact1 a) ''Offensive Rating'' =
             Some (if fga \<noteq> 0 then np_scale (np_div fgm fga) 100 else Fin 0) \<and>
           map_of (impact1 a) ''Efficiency'' =
             Some (if minutes \<noteq> 0 then np_scale (np_div p minutes) 48 else Fin 0)"
proof -
  let ?p = "df @ rolling_columns ''_roll_'' df"
  have pr: "\<not> df_empty df" "\<not> df_empty ?p" "snd (preprocess_game_log1 (Some df)) = Inr (Some ?p)"
    using processed_ok[OF ok, of "''_roll_''"] by (simp_all add: preprocess_game_log1_def)
  obtain recent where recent: "select_columns (head 5 ?p)
      [''GAME_DATE'', ''MATCHUP'', ''MIN'', ''PTS'', ''AST'', ''REB''] = Inr recent"
    using recent_games_ok[OF ok gd mu] by blast
  obtain ts where ts: "team_stats ?p = Inr ts" using team_stats_ok[OF ok] by blast
  obtain usage defence where im: "impact_metrics1 ?p =
       Inr [(''Usage Rate'', usage),
            (''Offensive Rating'', if fga \<noteq> 0 then np_scale (np_div fgm fga) 100 else Fin 0),
            (''Defensive Impact'', defence),
            (''Efficiency'', if minutes \<noteq> 0 then np_scale (np_div p minutes) 48 else Fin 0)]"
    using impact_metrics_ok[OF ok sums] by blast
  have "main1_analysis (Some df) =
          Inr (Some \<lparr>recent_games1 = recent, team_statistics1 = ts,
                     impact1 = [(''Usage Rate'', usage),
                       (''Offensive Rating'', if fga \<noteq> 0 then np_scale (np_div fgm fga) 100 else Fin 0),
                       (''Defensive Impact'', defence),
                       (''Efficiency'', if minutes \<noteq> 0 then np_scale (np_div p minutes) 48 else Fin 0)]\<rparr>)"
    using pr by (simp add: main1_analysis_def analyze_processed1_def recent ts im del: select_columns.simps)
  then show ?thesis by auto
qed

lemma np_ratio:
  "np_scale (np_div a b) k =
     (if b = 0 then (if a = 0 then NaN else if 0 < a then PInf else NInf) else Fin (a / b * k))"
  by (simp add: np_div_def np_scale_def)

text \<open>
  C9. For a game log that \<open>main\<close> can show (it has its GAME_DATE and MATCHUP columns),
  \<open>main\<close> reaches the training, and the feature matrix X that it passes to
  \<open>train_models\<close>, the X of the one split the library is asked for, has for each window
  w the column \<open>PTS_rolling_w\<close>, whose value at row i is the sum of the row's own PTS and
  of the PTS of the rows before it in the window, divided by the size of the window: the
  current row's PTS is one of the values averaged. The target y is the PTS column itself.
\<close>

theorem pts_rolling_includes_current_row_and_is_in_X:
  assumes "game_log_ok df"
    and "map_of df ''GAME_DATE'' \<noteq> None" and "map_of df ''MATCHUP'' \<noteq> None"
    and "w \<in> set rolling_windows"
    and "map_of df ''PTS'' = Some (map Num vs)"
  shows "\<exists>a. main_analysis lib (Some df) = Inr (Some a) \<and>
             model_y a = map Num vs \<and>
             map_of (model_X a) (''PTS_rolling_'' @ str_nat w) =
               Some (map (\<lambda>i. Num ((vs ! i + sum_list (drop (i + 1 - w) (take i vs)))
                                    / of_nat (min (i + 1) w)))
                       [0 ..< length vs]) \<and>
             trained_best a = fst (train_models lib (model_X a) (model_y a)) \<and>
             model_results a = fst (snd (train_models lib (model_X a) (model_y a))) \<and>
             hd (library_calls a) = Split (model_X a) (model_y a) (1 / 5) 42"
proof -
  have pos: "0 < w" using assms(4) by (auto simp: rolling_windows_def)
  have t: "''PTS'' \<in> set (features @ [target])" by (simp add: target_def)
  obtain fgm fga p minutes where sums:
    "col_sum df ''FGM'' = Inr fgm" "col_sum df ''FGA'' = Inr fga"
    "col_sum df ''PTS'' = Inr p" "col_sum df ''MIN'' = Inr minutes"
    using col_sum_field[OF assms(1) fields_listed(2), of "[]"]
      col_sum_field[OF assms(1) fields_listed(3), of "[]"]
      col_sum_field[OF assms(1) fields_listed(6), of "[]"]
      col_sum_field[OF assms(1) fields_listed(1), of "[]"] by blast
  obtain a X where a: "main_analysis lib (Some df) = Inr (Some a)"
    and X: "model_inputs (df @ rolling_columns ''_rolling_'' df) = Inr (X, map Num vs)"
    and fields: "model_X a = X" "model_y a = map Num vs"
      "trained_best a = fst (train_models lib X (map Num vs))"
      "model_results a = fst (snd (train_models lib X (map Num vs)))"
      "library_calls a = snd (snd (train_models lib X (map Num vs)))"
    using main_analysis_ok[OF assms(1,2,3,5) sums, of lib] by blast
  have name: "str_in ''_rolling_'' (''PTS_rolling_'' @ str_nat w)"
    using str_in_append[of "''_rolling_''" "''PTS''" "str_nat w"] by simp
  have "map_of X (''PTS_rolling_'' @ str_nat w) =
          map_of (df @ rolling_columns ''_rolling_'' df) (''PTS_rolling_'' @ str_nat w)"
    using map_of_X[OF X name] .
  also have "\<dots> = returned_column (preprocess_game_log (Some df)) (''PTS'' @ ''_rolling_'' @ str_nat w)"
    using preprocess_ok[OF assms(1), of "''_rolling_''"]
    by (simp add: preprocess_game_log_def returned_column_def)
  also have "\<dots> = Some (map (\<lambda>i. Num (sum_list (drop (Suc i - w) (take (Suc i) vs)) / of_nat (min (Suc i) w)))
                   [0 ..< length vs])"
    using processed_rolling_column[OF assms(1) t assms(4,5)] .
  also have "\<dots> = Some (map (\<lambda>i. Num ((vs ! i + sum_list (drop (i + 1 - w) (take i vs)))
                                    / of_nat (min (i + 1) w))) [0 ..< length vs])"
    using window_sum_split[OF _ pos, of _ vs] by simp
  finally have col: "map_of X (''PTS_rolling_'' @ str_nat w) =
      Some (map (\<lambda>i. Num ((vs ! i + sum_list (drop (i + 1 - w) (take i vs)))
                          / of_nat (min (i + 1) w))) [0 ..< length vs])" .
  have call: "hd (library_calls a) = Split X (map Num vs) (1 / 5) 42"
    unfolding fields(5) by (simp add: train_models_run split: prod.splits)
  show ?thesis using a col call fields by auto
qed

lemma two_games_dated_ok: "game_log_ok two_games_dated"
  by (simp add: game_log_ok_def two_games_dated_def two_games_def features_def target_def
        nrows_def is_num_def)

theorem pts_rolling_includes_current_row_and_is_in_X_witness:
  "\<exists>a. main_analysis example_lib (Some two_games_dated) = Inr (Some a) \<and>
       model_y a = [Num 10, Num 20] \<and>
       map_of (model_X a) ''PTS_rolling_3'' = Some [Num 10, Num 15] \<and>
       hd (library_calls a) = Split (model_X a) (model_y a) (1 / 5) 42"
proof -
  have 1: "map_of two_games_dated ''GAME_DATE'' \<noteq> None" "map_of two_games_dated ''MATCHUP'' \<noteq> None"
    by (simp_all add: two_games_dated_def two_games_def)
  have 2: "(3::nat) \<in> set rolling_windows" by (simp add: rolling_windows_def)
  have 3: "map_of two_games_dated ''PTS'' = Some (map Num [10, 20])"
    by (simp add: two_games_dated_def two_games_def)
  have 4: "[0 ..< length [10, 20 :: rat]] = [0, 1]" by (simp add: upt_rec)
  show ?thesis
    using pts_rolling_includes_current_row_and_is_in_X
            [OF two_games_dated_ok 1 2 3, of example_lib]
    unfolding 4 by (auto simp: str_nat.simps digit_char_def)
qed

text \<open>
  C3. What the two versions report for the two ratios of a game log, from the sums of
  FGM, FGA, PTS and MIN. \<open>main\<close> of streamlit\_app.py divides unguarded: when the
  denominator sums to zero its Offensive Rating and its Efficiency are NaN or an infinity,
  never 0. \<open>main\<close> of 1streamlit\_app.py guards each ratio and reports 0 there. For the
  player with no minutes in any row the Efficiency of streamlit\_app.py is NaN.
\<close>

theorem unguarded_ratios_are_not_zero:
  assumes "game_log_ok df"
    and "map_of df ''GAME_DATE'' \<noteq> None" and "map_of df ''MATCHUP'' \<noteq> None"
    and "col_sum df ''FGM'' = Inr fgm" and "col_sum df ''FGA'' = Inr fga"
    and "col_sum df ''PTS'' = Inr pts" and "col_sum df ''MIN'' = Inr minutes"
  shows "(\<exists>a. main_analysis lib (Some df) = Inr (Some a) \<and>
              map_of (impact a) ''Offensive Rating'' =
                Some (if fga = 0 then (if fgm = 0 then NaN else if 0 < fgm then PInf else NInf)
                      else Fin (fgm / fga * 100)) \<and>
              map_of (impact a) ''Efficiency'' =
                Some (if minutes = 0 then (if pts = 0 then NaN else if 0 < pts then PInf else NInf)
                      else Fin (pts / minutes * 48))) \<and>
         (\<exists>a. main1_analysis (Some df) = Inr (Some a) \<and>
              map_of (impact1 a) ''Offensive Rating'' =
                Some (if fga = 0 then Fin 0 else Fin (fgm / fga * 100)) \<and>
              map_of (impact1 a) ''Efficiency'' =
                Some (if minutes = 0 then Fin 0 else Fin (pts / minutes * 48)))"
proof -
  obtain y where y: "map_of df ''PTS'' = Some y"
    using field_column[OF assms(1) fields_listed(6)] by blast
  have "\<exists>a. main_analysis lib (Some df) = Inr (Some a) \<and>
             map_of (impact a) ''Offensive Rating'' = Some (np_scale (np_div fgm fga) 100) \<and>
             map_of (impact a) ''Efficiency'' = Some (np_scale (np_div pts minutes) 48)"
    using main_analysis_ok[OF assms(1,2,3) y assms(4,5,6,7), of lib] by blast
  moreover have "\<exists>a. main1_analysis (Some df) = Inr (Some a) \<and>
           map_of (impact1 a) ''Offensive Rating'' =
             Some (if fga \<noteq> 0 then np_scale (np_div fgm fga) 100 else Fin 0) \<and>
           map_of (impact1 a) ''Efficiency'' =
             Some (if minutes \<noteq> 0 then np_scale (np_div pts minutes) 48 else Fin 0)"
    using main1_analysis_ok[OF assms] .
  ultimately show ?thesis unfolding np_ratio by (auto cong: if_cong)
qed

lemma zero_minutes_ok: "game_log_ok zero_minutes"
  by (simp add: game_log_ok_def zero_minutes_def features_def target_def nrows_def is_num_def
        list_all_iff)

theorem unguarded_ratios_are_not_zero_witness:
  "(\<exists>a. main_analysis example_lib (Some zero_minutes) = Inr (Some a) \<and>
        map_of (impact a) ''Offensive Rating'' = Some NaN \<and>
        map_of (impact a) ''Efficiency'' = Some NaN) \<and>
   (\<exists>a. main1_analysis (Some zero_minutes) = Inr (Some a) \<and>
        map_of (impact1 a) ''Offensive Rating'' = Some (Fin 0) \<and>
        map_of (impact1 a) ''Efficiency'' = Some (Fin 0))"
proof -
  have 1: "map_of zero_minutes ''GAME_DATE'' \<noteq> None" "map_of zero_minutes ''MATCHUP'' \<noteq> None"
    by (simp_all add: zero_minutes_def)
  have s: "col_sum zero_minutes ''FGM'' = Inr 0" "col_sum zero_minutes ''FGA'' = Inr 0"
    "col_sum zero_minutes ''PTS'' = Inr 0" "col_sum zero_minutes ''MIN'' = Inr 0"
    by (simp_all add: col_sum_def get_column_def zero_minutes_def features_def is_text_def
          observations_def list_ex_iff sum_list_replicate)
  show ?thesis
    using unguarded_ratios_are_not_zero[OF zero_minutes_ok 1 s, of example_lib] by simp
qed

end
